theory Spec2Isabelle
  imports Complex_Main
begin

section \<open>AirLens: pollutant resolution and AQI derivation pipeline (app.py)\<close>

text \<open>
  Modelling conventions.
  \<^item> A Python \<open>str\<close> is a list of Unicode code points (\<open>ustring\<close>); \<open>u\<close> embeds an ASCII
    literal of the source.
  \<^item> A Python \<open>float\<close> (and \<open>int\<close>) is a real number: comparisons, \<open>min\<close>, \<open>max\<close> and
    the rounding functions are modelled exactly on the real value; the rounding error of
    IEEE-754 arithmetic, NaN and the infinities are outside the model. The one exception
    is the PM2.5 fallback, where the digit that is stored depends on how the product is
    rounded to a double: there every arithmetic operation is followed by the rounding
    \<open>fl\<close> of the runtime, and \<open>binary64\<close> is that rounding for IEEE-754 doubles.
  \<^item> A value decoded from JSON, or held in a dynamically typed variable, is a \<open>pyval\<close>.
    \<open>PDict\<close> lists the items of a dictionary in insertion order, each key once.
  \<^item> A raised exception is the \<open>Inl\<close> branch of a sum type; every \<open>try/except\<close> of the
    source is a case distinction on it.
  \<^item> Functions of the Python runtime and of third-party libraries that the program calls
    (parsing a float from a string, \<open>str()\<close> of a non-string, lower-casing beyond ASCII,
    HTTP requests, random number generators, Earth Engine) are parameters of the model.
\<close>

subsection \<open>Python values\<close>

type_synonym ustring = "nat list"

definition u :: "string \<Rightarrow> ustring" where
  "u s = map of_char s"

datatype pyval =
    PNone
  | PBool bool
  | PNum real
  | PStr ustring
  | PList "pyval list"
  | PDict "(ustring \<times> pyval) list"

datatype exc = TypeError | ValueError | AttributeError | NameError | KeyError

text \<open>
  The part of the Python runtime that the program relies on and that is not reimplemented
  here: \<open>float_of_str\<close> parses a float literal (\<open>None\<close> where \<open>float(s)\<close> raises
  \<open>ValueError\<close>); \<open>lower_nonascii s i\<close> is what \<open>str.lower\<close> produces for the code point
  at position \<open>i\<close> of \<open>s\<close> when that code point is beyond ASCII (possibly several code
  points, possibly depending on the context); \<open>str_of\<close> is \<open>str()\<close> of a value that is not
  a string; \<open>list_gt a b\<close> is the comparison \<open>a > b\<close> of two lists, which compares their
  elements in turn and may raise; \<open>fl\<close> rounds a real number to the float that stores it
  (the result of \<open>+\<close>, \<open>*\<close> or \<open>/\<close> on floats is \<open>fl\<close> of the exact result, a decimal
  literal denotes \<open>fl\<close> of its value); \<open>math_sin\<close> is \<open>math.sin\<close> on floats.
\<close>

record runtime =
  float_of_str :: "ustring \<Rightarrow> real option"
  lower_nonascii :: "ustring \<Rightarrow> nat \<Rightarrow> ustring"
  str_of :: "pyval \<Rightarrow> ustring"
  list_gt :: "pyval list \<Rightarrow> pyval list \<Rightarrow> exc + bool"
  fl :: "real \<Rightarrow> real"
  math_sin :: "real \<Rightarrow> real"

text \<open>A runtime that knows ASCII only and computes exactly: no string parses as a float,
  code points beyond ASCII have no lower case, \<open>str()\<close> of a non-string is empty, lists do
  not compare, arithmetic is not rounded. It serves as a concrete instance.\<close>

definition ascii_runtime :: runtime where
  "ascii_runtime =
     \<lparr>float_of_str = (\<lambda>s. None), lower_nonascii = (\<lambda>s i. [s ! i]), str_of = (\<lambda>v. []),
      list_gt = (\<lambda>a b. Inl TypeError), fl = (\<lambda>x. x), math_sin = sin\<rparr>"

text \<open>\<open>float(x)\<close>.\<close>

fun py_float :: "runtime \<Rightarrow> pyval \<Rightarrow> exc + real" where
  "py_float rt (PNum r) = Inr r"
| "py_float rt (PBool b) = Inr (if b then 1 else 0)"
| "py_float rt (PStr s) = (case float_of_str rt s of None \<Rightarrow> Inl ValueError | Some r \<Rightarrow> Inr r)"
| "py_float rt PNone = Inl TypeError"
| "py_float rt (PList xs) = Inl TypeError"
| "py_float rt (PDict kvs) = Inl TypeError"

text \<open>Truth value of an object in a condition.\<close>

fun truthy :: "pyval \<Rightarrow> bool" where
  "truthy PNone = False"
| "truthy (PBool b) = b"
| "truthy (PNum r) = (r \<noteq> 0)"
| "truthy (PStr s) = (s \<noteq> [])"
| "truthy (PList xs) = (xs \<noteq> [])"
| "truthy (PDict kvs) = (kvs \<noteq> [])"

text \<open>\<open>d.get(k, default)\<close>: only a dictionary has the method.\<close>

fun py_get :: "pyval \<Rightarrow> ustring \<Rightarrow> pyval \<Rightarrow> exc + pyval" where
  "py_get (PDict kvs) k d = Inr (case map_of kvs k of None \<Rightarrow> d | Some v \<Rightarrow> v)"
| "py_get v k d = Inl AttributeError"

text \<open>The elements a \<open>for\<close> loop visits: the items of a list, the keys of a dictionary, the
  one-character substrings of a string; anything else is not iterable.\<close>

fun py_iter :: "pyval \<Rightarrow> exc + pyval list" where
  "py_iter (PList xs) = Inr xs"
| "py_iter (PDict kvs) = Inr (map (\<lambda>kv. PStr (fst kv)) kvs)"
| "py_iter (PStr s) = Inr (map (\<lambda>c. PStr [c]) s)"
| "py_iter v = Inl TypeError"

text \<open>\<open>round(x)\<close> of Python 3: to the nearest integer, ties to the even one.\<close>

definition py_round :: "real \<Rightarrow> int" where
  "py_round x =
     (let f = \<lfloor>x\<rfloor>; d = x - of_int f
      in if d < 1/2 then f else if d > 1/2 then f + 1 else if even f then f else f + 1)"

text \<open>\<open>round(x, n)\<close>: to \<open>n\<close> decimal places, ties to even.\<close>

definition py_round_nd :: "real \<Rightarrow> nat \<Rightarrow> real" where
  "py_round_nd x n = of_int (py_round (x * 10 ^ n)) / 10 ^ n"

text \<open>
  Rounding to the nearest IEEE-754 double, ties to the even significand, in the normal
  range: \<open>e\<close> is the binary exponent of \<open>x\<close> and \<open>ulp\<close> the spacing of the doubles of that
  exponent (53 significant bits). Overflow and subnormal numbers are left out.
\<close>

definition binary64 :: "real \<Rightarrow> real" where
  "binary64 x =
     (if x = 0 then 0
      else (let e = \<lfloor>log 2 \<bar>x\<bar>\<rfloor>; ulp = 2 powr (of_int e - 52)
            in of_int (py_round (x / ulp)) * ulp))"

text \<open>The ASCII runtime with double arithmetic, and a sine rounded to the nearest double.\<close>

definition double_runtime :: runtime where
  "double_runtime = ascii_runtime\<lparr>fl := binary64, math_sin := (\<lambda>x. binary64 (sin x))\<rparr>"

text \<open>What the bounds on the fallback values need of the float arithmetic: rounding is
  monotone, integers below \<open>2^53\<close> in magnitude are floats, and the sine stays in
  \<open>[-1, 1]\<close>.\<close>

definition binary64_like :: "runtime \<Rightarrow> bool" where
  "binary64_like rt =
     ((\<forall>x y. x \<le> y \<longrightarrow> fl rt x \<le> fl rt y)
      \<and> (\<forall>n::int. \<bar>n\<bar> < 2 ^ 53 \<longrightarrow> fl rt (of_int n) = of_int n)
      \<and> (\<forall>x. \<bar>math_sin rt x\<bar> \<le> 1))"

subsection \<open>Label normalizer\<close>

definition ascii_lower :: "nat \<Rightarrow> nat" where
  "ascii_lower c = (if 65 \<le> c \<and> c \<le> 90 then c + 32 else c)"

text \<open>\<open>s.lower()\<close>. An ASCII code point is mapped on its own; the subscript digits U+2082,
  U+2083 and U+2085 have no case; every other code point is left to the runtime.\<close>

definition py_lower :: "runtime \<Rightarrow> ustring \<Rightarrow> ustring" where
  "py_lower rt s =
     concat (map (\<lambda>i. let c = s ! i
                      in if c < 128 then [ascii_lower c]
                         else if c = 8322 \<or> c = 8323 \<or> c = 8325 then [c]
                         else lower_nonascii rt s i)
                 [0..<length s])"

text \<open>\<open>s.replace(a, b)\<close> for one-character strings \<open>a\<close> and \<open>b\<close>.\<close>

definition replace1 :: "nat \<Rightarrow> nat \<Rightarrow> ustring \<Rightarrow> ustring" where
  "replace1 a b s = map (\<lambda>c. if c = a then b else c) s"

text \<open>The character class \<open>[a-z0-9]\<close>; \<open>re.sub(r"[^a-z0-9]", "", s)\<close> keeps exactly its
  members.\<close>

definition is_az09 :: "nat \<Rightarrow> bool" where
  "is_az09 c = ((97 \<le> c \<and> c \<le> 122) \<or> (48 \<le> c \<and> c \<le> 57))"

definition py_str :: "runtime \<Rightarrow> pyval \<Rightarrow> ustring" where
  "py_str rt v = (case v of PStr s \<Rightarrow> s | _ \<Rightarrow> str_of rt v)"

definition normalize_label :: "runtime \<Rightarrow> pyval \<Rightarrow> ustring" where
  "normalize_label rt lbl =
     (case lbl of
        PNone \<Rightarrow> []
      | _ \<Rightarrow>
        (let s = py_lower rt (py_str rt lbl);
             s = replace1 8325 53 (replace1 8323 51 (replace1 8322 50 s))
         in filter is_az09 s))"

subsection \<open>AQI conversion (EPA breakpoints)\<close>

definition EPA_BP :: "(real \<times> real \<times> int \<times> int) list" where
  "EPA_BP =
     [(0.0, 12.0, 0, 50),
      (12.1, 35.4, 51, 100),
      (35.5, 55.4, 101, 150),
      (55.5, 150.4, 151, 200),
      (150.5, 250.4, 201, 300),
      (250.5, 350.4, 301, 400),
      (350.5, 500.4, 401, 500)]"

text \<open>The \<open>for\<close> loop of \<open>pm25_to_aqi\<close> over the breakpoint table, with its fall-through
  \<open>return 500\<close>.\<close>

fun aqi_scan :: "(real \<times> real \<times> int \<times> int) list \<Rightarrow> real \<Rightarrow> int" where
  "aqi_scan [] pm = 500"
| "aqi_scan ((pm_l, pm_h, a_l, a_h) # bps) pm =
     (if pm_l \<le> pm \<and> pm \<le> pm_h
      then py_round ((of_int (a_h - a_l) / (pm_h - pm_l)) * (pm - pm_l) + of_int a_l)
      else aqi_scan bps pm)"

definition pm25_to_aqi :: "runtime \<Rightarrow> pyval \<Rightarrow> int option" where
  "pm25_to_aqi rt pm =
     (case py_float rt pm of
        Inl e \<Rightarrow> None
      | Inr x \<Rightarrow> Some (aqi_scan EPA_BP x))"

text \<open>A well-formed row of the breakpoint table: a proper concentration interval and an
  index interval inside \<open>[0, 500]\<close>.\<close>

definition band_ok :: "real \<times> real \<times> int \<times> int \<Rightarrow> bool" where
  "band_ok b = (case b of (pm_l, pm_h, a_l, a_h) \<Rightarrow> pm_l < pm_h \<and> 0 \<le> a_l \<and> a_l \<le> a_h \<and> a_h \<le> 500)"

text \<open>\<open>in_table\<close>: the concentration lies in some row. \<open>table_ok\<close>: the rows are well formed
  and each row lies below the later ones, in concentration and in index.\<close>

fun in_table :: "(real \<times> real \<times> int \<times> int) list \<Rightarrow> real \<Rightarrow> bool" where
  "in_table [] pm = False"
| "in_table ((pm_l, pm_h, a_l, a_h) # bps) pm = ((pm_l \<le> pm \<and> pm \<le> pm_h) \<or> in_table bps pm)"

definition after_band :: "real \<times> real \<times> int \<times> int \<Rightarrow> real \<times> real \<times> int \<times> int \<Rightarrow> bool" where
  "after_band b c = (fst (snd b) < fst c \<and> snd (snd (snd b)) \<le> fst (snd (snd c)))"

fun table_ok :: "(real \<times> real \<times> int \<times> int) list \<Rightarrow> bool" where
  "table_ok [] = True"
| "table_ok (b # bps) = (band_ok b \<and> list_all (after_band b) bps \<and> table_ok bps)"

subsection \<open>Pollutant slots and measurement ingestion\<close>

text \<open>
  \<open>polls\<close> and \<open>live_flags\<close> are dictionaries over the same six keys. They are created with
  all six keys and never extended (the only store under a computed key is guarded by
  \<open>key in polls\<close>), so each is a total function on the six slots; \<open>poll_keys\<close> is the
  order in which \<open>for k in polls\<close> visits them and \<open>slot_of\<close> is the test \<open>key in polls\<close>.
\<close>

datatype pollutant = PM25 | PM10 | NO2 | SO2 | O3 | CO

record reading =
  polls :: "pollutant \<Rightarrow> pyval"
  live_flags :: "pollutant \<Rightarrow> bool"

definition poll_keys :: "pollutant list" where
  "poll_keys = [PM25, PM10, NO2, SO2, O3, CO]"

definition slot_of :: "ustring \<Rightarrow> pollutant option" where
  "slot_of key =
     (if key = u ''pm25'' then Some PM25
      else if key = u ''pm10'' then Some PM10
      else if key = u ''no2'' then Some NO2
      else if key = u ''so2'' then Some SO2
      else if key = u ''o3'' then Some O3
      else if key = u ''co'' then Some CO
      else None)"

definition reading0 :: reading where
  "reading0 = \<lparr>polls = (\<lambda>k. PNone), live_flags = (\<lambda>k. False)\<rparr>"

text \<open>The mode returned by the resolver: the strings \<open>"latest"\<close> and \<open>"pseudo"\<close>; \<open>None\<close> is
  the absent mode.\<close>

datatype source_type = Latest | Pseudo

text \<open>A normalized measurement: the dictionary with the keys \<open>parameter\<close>, \<open>value\<close> and
  \<open>lastUpdated\<close> that the resolver builds.\<close>

record measure =
  parameter :: pyval
  val :: pyval
  lastUpdated :: pyval

text \<open>
  The ingestion loop calls \<open>iso_to_dt(ts)\<close>, but \<open>app.py\<close> neither defines nor imports that
  name, so evaluating the call raises \<open>NameError\<close>, which the bare \<open>except:\<close> around it
  catches. The loop is written over the binding of the name: \<open>None\<close> is the unbound name of
  the program as it is; \<open>Some f\<close> is a function that raises, returns \<open>None\<close>, or returns a
  naive UTC datetime, held as seconds on the scale of \<open>datetime.utcnow()\<close>.
\<close>

type_synonym iso_binding = "(pyval \<Rightarrow> exc + real option) option"

definition iso_to_dt :: iso_binding where
  "iso_to_dt = None"

definition pseudo_live :: "iso_binding \<Rightarrow> real \<Rightarrow> pyval \<Rightarrow> bool" where
  "pseudo_live bnd now ts =
     (if truthy ts then
        (case bnd of
           None \<Rightarrow> False
         | Some f \<Rightarrow>
           (case f ts of
              Inl e \<Rightarrow> False
            | Inr None \<Rightarrow> False
            | Inr (Some dtt) \<Rightarrow> (now - dtt) / 3600 \<le> 48))
      else False)"

text \<open>One pass of the body of \<open>for m in parsed_measures\<close>; \<open>now\<close> is the reading of the
  clock in this pass.\<close>

definition ingest_one ::
  "runtime \<Rightarrow> iso_binding \<Rightarrow> source_type option \<Rightarrow> real \<Rightarrow> measure \<Rightarrow> reading \<Rightarrow> reading" where
  "ingest_one rt bnd st now m rd =
     (let key = normalize_label rt (parameter m); v = val m; ts = lastUpdated m
      in case slot_of key of
           None \<Rightarrow> rd
         | Some k \<Rightarrow>
           if v = PNone then rd
           else
             (let rd1 = rd\<lparr>polls := (polls rd)(k := (case py_float rt v of Inr x \<Rightarrow> PNum x | Inl e \<Rightarrow> v))\<rparr>
              in case st of
                   Some Latest \<Rightarrow> rd1\<lparr>live_flags := (live_flags rd1)(k := True)\<rparr>
                 | Some Pseudo \<Rightarrow> rd1\<lparr>live_flags := (live_flags rd1)(k := pseudo_live bnd now ts)\<rparr>
                 | None \<Rightarrow> rd1))"

text \<open>The loop; \<open>clock i\<close> is the reading of the clock while the \<open>i\<close>-th measurement is
  processed.\<close>

fun ingest ::
  "runtime \<Rightarrow> iso_binding \<Rightarrow> source_type option \<Rightarrow> (nat \<Rightarrow> real) \<Rightarrow> nat \<Rightarrow> measure list \<Rightarrow> reading \<Rightarrow> reading" where
  "ingest rt bnd st clock i [] rd = rd"
| "ingest rt bnd st clock i (m # ms) rd =
     ingest rt bnd st clock (Suc i) ms (ingest_one rt bnd st (clock i) m rd)"

subsection \<open>Fallbacks for missing pollutant values\<close>

text \<open>
  The values of this block are computed in float arithmetic. \<open>round(x, 1)\<close> rounds the exact
  value of the float \<open>x\<close> to one decimal place, ties to even, and returns the float nearest
  to that decimal. \<open>geo_baseline rt lat c\<close> is \<open>round(5 + abs(math.sin(lat/12.0)) * c, 1)\<close>,
  which the block uses with \<open>c = 15\<close> (line 399) and \<open>c = 10\<close> (line 402).
\<close>

definition geo_baseline :: "runtime \<Rightarrow> real \<Rightarrow> real \<Rightarrow> real" where
  "geo_baseline rt lat c =
     fl rt (py_round_nd (fl rt (5 + fl rt (\<bar>math_sin rt (fl rt (lat / 12.0))\<bar> * c))) 1)"

definition pm25_fallback :: "runtime \<Rightarrow> real \<Rightarrow> reading \<Rightarrow> reading" where
  "pm25_fallback rt lat rd =
     (if polls rd PM25 = PNone then
        (if polls rd PM10 \<noteq> PNone then
           (case py_float rt (polls rd PM10) of
              Inr x \<Rightarrow>
                rd\<lparr>polls := (polls rd)(PM25 := PNum (fl rt (py_round_nd (fl rt (x * fl rt 0.6)) 1))),
                   live_flags := (live_flags rd)(PM25 := False)\<rparr>
            | Inl e \<Rightarrow>
                rd\<lparr>polls := (polls rd)(PM25 := PNum (geo_baseline rt lat 15)),
                   live_flags := (live_flags rd)(PM25 := False)\<rparr>)
         else
           rd\<lparr>polls := (polls rd)(PM25 := PNum (geo_baseline rt lat 10)),
              live_flags := (live_flags rd)(PM25 := False)\<rparr>)
      else rd)"

text \<open>
  One pass of the body of \<open>for k in polls\<close>. \<open>uniform g lo hi\<close> is \<open>np.random.uniform(lo, hi)\<close>
  in the state \<open>g\<close> of NumPy's global generator: the sample and the next state. The draw
  happens after \<open>float(polls["pm25"])\<close> has succeeded. The replacement in the \<open>except\<close>
  branch is the one-character string U+2014.
\<close>

definition fill_one ::
  "runtime \<Rightarrow> ('g \<Rightarrow> real \<Rightarrow> real \<Rightarrow> real \<times> 'g) \<Rightarrow> pollutant \<Rightarrow> reading \<times> 'g \<Rightarrow> reading \<times> 'g" where
  "fill_one rt uniform k s =
     (case s of (rd, g) \<Rightarrow>
        if polls rd k = PNone \<and> k \<noteq> PM25 then
          (case py_float rt (polls rd PM25) of
             Inr p \<Rightarrow>
               (case uniform g 0.6 1.4 of (r, g') \<Rightarrow>
                  (rd\<lparr>polls := (polls rd)(k := PNum (py_round_nd (max 0.1 (p * r)) 1)),
                      live_flags := (live_flags rd)(k := False)\<rparr>, g'))
           | Inl e \<Rightarrow>
               (rd\<lparr>polls := (polls rd)(k := PStr [8212]),
                   live_flags := (live_flags rd)(k := False)\<rparr>, g))
        else (rd, g))"

definition fill_missing ::
  "runtime \<Rightarrow> ('g \<Rightarrow> real \<Rightarrow> real \<Rightarrow> real \<times> 'g) \<Rightarrow> reading \<times> 'g \<Rightarrow> reading \<times> 'g" where
  "fill_missing rt uniform s = fold (fill_one rt uniform) poll_keys s"

text \<open>Lines 362 to 413 of the script: the slots are created, the measurements ingested,
  PM2.5 completed, then the other slots.\<close>

definition complete ::
  "runtime \<Rightarrow> iso_binding \<Rightarrow> ('g \<Rightarrow> real \<Rightarrow> real \<Rightarrow> real \<times> 'g) \<Rightarrow> (nat \<Rightarrow> real) \<Rightarrow> real
     \<Rightarrow> measure list \<Rightarrow> source_type option \<Rightarrow> 'g \<Rightarrow> reading \<times> 'g" where
  "complete rt bnd uniform clock lat parsed_measures st g =
     fill_missing rt uniform
       (pm25_fallback rt lat (ingest rt bnd st clock 0 parsed_measures reading0), g)"

subsection \<open>Ground-station resolver (expanding radii, pseudo-latest fallback)\<close>

text \<open>
  The two OpenAQ endpoints, and what a request yields: \<open>NoResponse\<close> when \<open>safe_get\<close> returns
  \<open>None\<close> (any exception of \<open>requests\<close>, or an HTTP error status), \<open>BadBody\<close> when
  \<open>resp.json()\<close> raises, \<open>Body j\<close> when it decodes to \<open>j\<close>. The service is a function of the
  requests made so far in the call (endpoint and radius, oldest first) and of the present
  request, so it may answer the same request differently when asked again.
\<close>

datatype endpoint = Latest_EP | Measurements_EP

datatype response = NoResponse | BadBody | Body pyval

type_synonym query_log = "(endpoint \<times> nat) list"

type_synonym http = "query_log \<Rightarrow> endpoint \<Rightarrow> nat \<Rightarrow> response"

text \<open>The timestamp of a raw measurement \<open>m\<close>: \<open>date.utc\<close> or \<open>date.local\<close> when \<open>date\<close> is a
  dictionary, else \<open>lastUpdated\<close>.\<close>

definition pick_timestamp :: "pyval \<Rightarrow> exc + pyval" where
  "pick_timestamp m =
     (case py_get m (u ''date'') PNone of
        Inl e \<Rightarrow> Inl e
      | Inr d \<Rightarrow>
        (let dt = (case d of
                     PDict kvs \<Rightarrow>
                       (let utc = (case map_of kvs (u ''utc'') of None \<Rightarrow> PNone | Some v \<Rightarrow> v)
                        in if truthy utc then utc
                           else (case map_of kvs (u ''local'') of None \<Rightarrow> PNone | Some v \<Rightarrow> v))
                   | _ \<Rightarrow> PNone)
         in if \<not> truthy dt then py_get m (u ''lastUpdated'') PNone else Inr dt))"

text \<open>The body of \<open>for m in res.get("measurements", [])\<close> in the first sweep.\<close>

definition parse_measurement :: "pyval \<Rightarrow> exc + measure" where
  "parse_measurement m =
     (case py_get m (u ''parameter'') PNone of
        Inl e \<Rightarrow> Inl e
      | Inr p \<Rightarrow>
        (case py_get m (u ''value'') PNone of
           Inl e \<Rightarrow> Inl e
         | Inr v \<Rightarrow>
           (case pick_timestamp m of
              Inl e \<Rightarrow> Inl e
            | Inr dt \<Rightarrow> Inr \<lparr>parameter = p, val = v, lastUpdated = dt\<rparr>)))"

text \<open>A loop that appends one item per element and is left by the first exception.\<close>

fun collect :: "('a \<Rightarrow> exc + 'b) \<Rightarrow> 'a list \<Rightarrow> exc + 'b list" where
  "collect f [] = Inr []"
| "collect f (x # xs) =
     (case f x of
        Inl e \<Rightarrow> Inl e
      | Inr y \<Rightarrow> (case collect f xs of Inl e \<Rightarrow> Inl e | Inr ys \<Rightarrow> Inr (y # ys)))"

text \<open>\<open>for res in results\<close>: the first result whose \<open>measurements\<close> are truthy is parsed and
  returned.\<close>

fun latest_scan :: "pyval list \<Rightarrow> exc + (pyval \<times> measure list) option" where
  "latest_scan [] = Inr None"
| "latest_scan (res # rest) =
     (case py_get res (u ''measurements'') PNone of
        Inl e \<Rightarrow> Inl e
      | Inr ms \<Rightarrow>
        if truthy ms then
          (case py_iter ms of
             Inl e \<Rightarrow> Inl e
           | Inr items \<Rightarrow>
             (case collect parse_measurement items of
                Inl e \<Rightarrow> Inl e
              | Inr parsed \<Rightarrow> Inr (Some (res, parsed))))
        else latest_scan rest)"

text \<open>The \<open>try\<close> block of the first sweep for one radius: \<open>Inr (Some x)\<close> is the \<open>return\<close>,
  \<open>Inr None\<close> the end of the block without data, \<open>Inl e\<close> an exception, which the
  \<open>except Exception: continue\<close> of the loop catches.\<close>

definition latest_try :: "response \<Rightarrow> exc + (pyval \<times> measure list) option" where
  "latest_try resp =
     (case resp of
        NoResponse \<Rightarrow> Inr None
      | BadBody \<Rightarrow> Inl ValueError
      | Body j \<Rightarrow>
        (case py_get j (u ''results'') (PList []) of
           Inl e \<Rightarrow> Inl e
         | Inr results \<Rightarrow>
           if truthy results then
             (case py_iter results of Inl e \<Rightarrow> Inl e | Inr rs \<Rightarrow> latest_scan rs)
           else Inr None))"

text \<open>
  Dictionaries keyed by decoded values. Lists and dictionaries are not hashable; numbers
  and booleans are the same key when they are equal as numbers. \<open>num_of\<close> is also the test
  \<open>isinstance(v, (int, float))\<close>, which a boolean passes.
\<close>

fun hashable :: "pyval \<Rightarrow> bool" where
  "hashable (PList xs) = False"
| "hashable (PDict kvs) = False"
| "hashable v = True"

fun num_of :: "pyval \<Rightarrow> real option" where
  "num_of (PNum r) = Some r"
| "num_of (PBool b) = Some (if b then 1 else 0)"
| "num_of v = None"

definition key_eq :: "pyval \<Rightarrow> pyval \<Rightarrow> bool" where
  "key_eq a b =
     (case num_of a of
        Some x \<Rightarrow> (case num_of b of Some y \<Rightarrow> x = y | None \<Rightarrow> False)
      | None \<Rightarrow> (case num_of b of Some y \<Rightarrow> False | None \<Rightarrow> a = b))"

type_synonym 'v pydict = "(pyval \<times> 'v) list"

definition d_find :: "'v pydict \<Rightarrow> pyval \<Rightarrow> 'v option" where
  "d_find d k = map_option snd (find (\<lambda>kv. key_eq (fst kv) k) d)"

text \<open>\<open>d[k] = v\<close>: a new key goes to the end, an old key keeps its place and its first
  spelling.\<close>

definition d_put :: "'v pydict \<Rightarrow> pyval \<Rightarrow> 'v \<Rightarrow> 'v pydict" where
  "d_put d k v =
     (if d_find d k = None then d @ [(k, v)]
      else map (\<lambda>kv. if key_eq (fst kv) k then (fst kv, v) else kv) d)"

text \<open>A loop over a state that is left by the first exception.\<close>

fun fold_exc :: "('a \<Rightarrow> 's \<Rightarrow> exc + 's) \<Rightarrow> 'a list \<Rightarrow> 's \<Rightarrow> exc + 's" where
  "fold_exc f [] s = Inr s"
| "fold_exc f (x # xs) s = (case f x s of Inl e \<Rightarrow> Inl e | Inr s' \<Rightarrow> fold_exc f xs s')"

text \<open>The body of \<open>for m in meas\<close>: \<open>by_loc\<close> maps a location to its measurements and the
  coordinates of its first measurement.\<close>

definition group_step ::
  "pyval \<Rightarrow> (pyval list \<times> pyval) pydict \<Rightarrow> exc + (pyval list \<times> pyval) pydict" where
  "group_step m by_loc =
     (case py_get m (u ''location'') PNone of
        Inl e \<Rightarrow> Inl e
      | Inr loc \<Rightarrow>
        if \<not> hashable loc then Inl TypeError
        else
          (case py_get m (u ''coordinates'') PNone of
             Inl e \<Rightarrow> Inl e
           | Inr coords \<Rightarrow>
             (let by_loc1 = (if d_find by_loc loc = None then d_put by_loc loc ([], coords) else by_loc)
              in case d_find by_loc1 loc of
                   None \<Rightarrow> Inl KeyError
                 | Some entry \<Rightarrow> Inr (d_put by_loc1 loc (fst entry @ [m], snd entry)))))"

text \<open>\<open>max(items, key=...)\<close>: the first item with the largest key.\<close>

fun first_max :: "('a \<Rightarrow> nat) \<Rightarrow> 'a \<Rightarrow> 'a list \<Rightarrow> 'a" where
  "first_max key best [] = best"
| "first_max key best (x # xs) = first_max key (if key x > key best then x else best) xs"

text \<open>\<open>s > t\<close> on strings: lexicographic on code points.\<close>

fun str_gt :: "ustring \<Rightarrow> ustring \<Rightarrow> bool" where
  "str_gt [] t = False"
| "str_gt (x # xs) [] = True"
| "str_gt (x # xs) (y # ys) = (if x = y then str_gt xs ys else x > y)"

text \<open>\<open>a > b\<close> on decoded values: numbers with numbers, strings with strings, lists with
  lists (left to the runtime); anything else raises \<open>TypeError\<close>.\<close>

definition py_gt :: "runtime \<Rightarrow> pyval \<Rightarrow> pyval \<Rightarrow> exc + bool" where
  "py_gt rt a b =
     (case num_of a of
        Some x \<Rightarrow> (case num_of b of Some y \<Rightarrow> Inr (x > y) | None \<Rightarrow> Inl TypeError)
      | None \<Rightarrow>
        (case a of
           PStr s \<Rightarrow> (case b of PStr t \<Rightarrow> Inr (str_gt s t) | _ \<Rightarrow> Inl TypeError)
         | PList xs \<Rightarrow> (case b of PList ys \<Rightarrow> list_gt rt xs ys | _ \<Rightarrow> Inl TypeError)
         | _ \<Rightarrow> Inl TypeError))"

text \<open>The body of \<open>for m in best["measurements"]\<close>, on the pair of \<open>params_seen\<close> and
  \<open>latest_ts\<close>.\<close>

definition seen_step ::
  "runtime \<Rightarrow> pyval \<Rightarrow> real list pydict \<times> pyval pydict \<Rightarrow> exc + real list pydict \<times> pyval pydict" where
  "seen_step rt m s =
     (case s of (params_seen, latest_ts) \<Rightarrow>
        (case py_get m (u ''parameter'') PNone of
           Inl e \<Rightarrow> Inl e
         | Inr p \<Rightarrow>
           (case py_get m (u ''value'') PNone of
              Inl e \<Rightarrow> Inl e
            | Inr v \<Rightarrow>
              (case num_of v of
                 None \<Rightarrow> Inr s
               | Some x \<Rightarrow>
                 if \<not> truthy p then Inr s
                 else if \<not> hashable p then Inl TypeError
                 else
                   (let arr = (case d_find params_seen p of None \<Rightarrow> [] | Some a \<Rightarrow> a);
                        params_seen1 = d_put params_seen p (arr @ [x])
                    in case pick_timestamp m of
                         Inl e \<Rightarrow> Inl e
                       | Inr dt \<Rightarrow>
                         if truthy dt then
                           (case d_find latest_ts p of
                              None \<Rightarrow> Inr (params_seen1, d_put latest_ts p dt)
                            | Some old \<Rightarrow>
                              (case py_gt rt dt old of
                                 Inl e \<Rightarrow> Inl e
                               | Inr newer \<Rightarrow>
                                 Inr (params_seen1,
                                      if newer then d_put latest_ts p dt else latest_ts)))
                         else Inr (params_seen1, latest_ts))))))"

definition measure_dict :: "measure \<Rightarrow> pyval" where
  "measure_dict m =
     PDict [(u ''parameter'', parameter m), (u ''value'', val m), (u ''lastUpdated'', lastUpdated m)]"

text \<open>The aggregation of the second sweep once \<open>meas\<close> is known to be truthy: grouping by
  location, the location with the most samples, the mean per parameter rounded to two
  decimals and the latest timestamp per parameter.\<close>

definition pseudo_aggregate :: "runtime \<Rightarrow> pyval list \<Rightarrow> exc + pyval \<times> measure list" where
  "pseudo_aggregate rt meas =
     (case fold_exc group_step meas [] of
        Inl e \<Rightarrow> Inl e
      | Inr by_loc \<Rightarrow>
        (case by_loc of
           [] \<Rightarrow> Inl ValueError
         | b # bs \<Rightarrow>
           (let best_item = first_max (\<lambda>x. length (fst (snd x))) b bs;
                best_loc = fst best_item;
                best = snd best_item
            in case fold_exc (seen_step rt) (fst best) ([], []) of
                 Inl e \<Rightarrow> Inl e
               | Inr (params_seen, latest_ts) \<Rightarrow>
                 (let parsed =
                        map (\<lambda>pa. \<lparr>parameter = fst pa,
                                   val = PNum (py_round_nd (sum_list (snd pa) / of_nat (length (snd pa))) 2),
                                   lastUpdated = (case d_find latest_ts (fst pa) of None \<Rightarrow> PNone | Some t \<Rightarrow> t)\<rparr>)
                            params_seen;
                      pseudo = PDict [(u ''location'', best_loc), (u ''coordinates'', snd best),
                                      (u ''measurements'', PList (map measure_dict parsed))]
                  in Inr (pseudo, parsed)))))"

text \<open>The \<open>try\<close> block of the second sweep for one radius.\<close>

definition pseudo_try :: "runtime \<Rightarrow> response \<Rightarrow> exc + (pyval \<times> measure list) option" where
  "pseudo_try rt resp =
     (case resp of
        NoResponse \<Rightarrow> Inr None
      | BadBody \<Rightarrow> Inl ValueError
      | Body j \<Rightarrow>
        (case py_get j (u ''results'') (PList []) of
           Inl e \<Rightarrow> Inl e
         | Inr meas \<Rightarrow>
           if truthy meas then
             (case py_iter meas of
                Inl e \<Rightarrow> Inl e
              | Inr ms \<Rightarrow>
                (case pseudo_aggregate rt ms of Inl e \<Rightarrow> Inl e | Inr x \<Rightarrow> Inr (Some x)))
           else Inr None))"

text \<open>
  Both sweeps are the same loop, \<open>for r in radii: try: ... except Exception: continue\<close>,
  around different \<open>try\<close> blocks: the request is logged, the block runs on what the service
  answers, a \<open>return\<close> inside the block ends the sweep with its value and the radius, and
  anything else goes on to the next radius.
\<close>

fun sweep ::
  "(response \<Rightarrow> exc + 'a option) \<Rightarrow> endpoint \<Rightarrow> http \<Rightarrow> query_log \<Rightarrow> nat list
     \<Rightarrow> ('a \<times> nat) option \<times> query_log" where
  "sweep block ep service qlog [] = (None, qlog)"
| "sweep block ep service qlog (r # rs) =
     (case block (service qlog ep r) of
        Inr (Some x) \<Rightarrow> (Some (x, r), qlog @ [(ep, r)])
      | _ \<Rightarrow> sweep block ep service (qlog @ [(ep, r)]) rs)"

text \<open>\<open>fetch_openaq_adaptive\<close>: the returned tuple, and the requests made.\<close>

definition fetch_openaq_adaptive ::
  "runtime \<Rightarrow> http \<Rightarrow> nat list
     \<Rightarrow> (pyval option \<times> nat option \<times> measure list \<times> source_type option) \<times> query_log" where
  "fetch_openaq_adaptive rt service radii =
     (case sweep latest_try Latest_EP service [] radii of
        (Some ((res, parsed), r), qlog) \<Rightarrow> ((Some res, Some r, parsed, Some Latest), qlog)
      | (None, qlog) \<Rightarrow>
        (case sweep (pseudo_try rt) Measurements_EP service qlog radii of
           (Some ((pseudo, parsed), r), qlog') \<Rightarrow> ((Some pseudo, Some r, parsed, Some Pseudo), qlog')
         | (None, qlog') \<Rightarrow> ((None, None, [], None), qlog')))"

definition default_radii :: "nat list" where
  "default_radii = [5000, 20000, 50000, 100000, 200000]"

text \<open>
  Derived notions for stating what a sweep does: a response is a miss for a block when the
  block does not return on it (it ends without data, or raises); \<open>no_measurements\<close> is a
  result object whose \<open>measurements\<close> are absent or falsy; \<open>is_dict\<close> is a decoded object.
\<close>

definition miss :: "(response \<Rightarrow> exc + 'a option) \<Rightarrow> response \<Rightarrow> bool" where
  "miss block resp = (case block resp of Inr (Some x) \<Rightarrow> False | _ \<Rightarrow> True)"

fun is_dict :: "pyval \<Rightarrow> bool" where
  "is_dict (PDict kvs) = True"
| "is_dict v = False"

definition no_measurements :: "pyval \<Rightarrow> bool" where
  "no_measurements res =
     (case res of
        PDict kvs \<Rightarrow> (case map_of kvs (u ''measurements'') of None \<Rightarrow> True | Some ms \<Rightarrow> \<not> truthy ms)
      | _ \<Rightarrow> False)"

text \<open>A concrete service for instances: it answers the latest-readings request at radius
  20000 with two results, the second holding one PM2.5 measurement, and nothing else.\<close>

definition demo_measurement :: pyval where
  "demo_measurement =
     PDict [(u ''parameter'', PStr (u ''pm25'')), (u ''value'', PNum 12),
            (u ''lastUpdated'', PStr (u ''2024-01-01T00:00:00Z''))]"

definition demo_service :: http where
  "demo_service qlog ep r =
     (if ep = Latest_EP \<and> r = 20000
      then Body (PDict [(u ''results'',
                   PList [PDict [(u ''location'', PStr (u ''A''))],
                          PDict [(u ''measurements'', PList [demo_measurement])]])])
      else NoResponse)"

subsection \<open>Satellite proxy\<close>

text \<open>\<open>np.clip(x, lo, hi)\<close> on a scalar.\<close>

definition np_clip :: "real \<Rightarrow> real \<Rightarrow> real \<Rightarrow> real" where
  "np_clip x lo hi = min (max x lo) hi"

text \<open>The clamp of the specification, to compare \<open>np_clip\<close> with.\<close>

definition clamp :: "real \<Rightarrow> real \<Rightarrow> real \<Rightarrow> real" where
  "clamp x lo hi = (if x < lo then lo else if hi < x then hi else x)"

definition tempo_to_aod_proxy_from_no2 :: "runtime \<Rightarrow> pyval \<Rightarrow> real option" where
  "tempo_to_aod_proxy_from_no2 rt no2_col =
     (case py_float rt no2_col of
        Inl e \<Rightarrow> None
      | Inr x \<Rightarrow> Some (np_clip (x / 10 ^ 16) 0.03 1.0))"

text \<open>The source label. The two satellite labels are formatted strings that embed the
  value rounded to three decimals; they are kept as constructors carrying that number.\<close>

datatype aod_label = TEMPO_NO2 real | MODIS_AOD real | DEMO_FALLBACK | PM25_proxy

text \<open>
  The Earth Engine expression inside each helper is an outcome handed to the model: \<open>Inl\<close>
  when building or evaluating it raises, \<open>Inr v\<close> when \<open>getInfo()\<close> delivers \<open>v\<close>.
\<close>

definition get_tempo_no2_via_ee :: "runtime \<Rightarrow> bool \<Rightarrow> exc + pyval \<Rightarrow> real option" where
  "get_tempo_no2_via_ee rt ee_available q =
     (if \<not> ee_available then None
      else case q of
             Inl e \<Rightarrow> None
           | Inr v \<Rightarrow> (case py_float rt v of Inl e \<Rightarrow> None | Inr x \<Rightarrow> Some x))"

definition get_modis_aod_via_ee :: "runtime \<Rightarrow> bool \<Rightarrow> exc + pyval \<Rightarrow> real option" where
  "get_modis_aod_via_ee rt ee_available q =
     (if \<not> ee_available then None
      else case q of
             Inl e \<Rightarrow> None
           | Inr info \<Rightarrow>
             (case py_get info (u ''Optical_Depth_Land_And_Ocean'') PNone of
                Inl e \<Rightarrow> None
              | Inr v \<Rightarrow>
                if v = PNone then None
                else (case py_float rt v of Inl e \<Rightarrow> None | Inr x \<Rightarrow> Some x)))"

definition fetch_satellite_proxy ::
  "runtime \<Rightarrow> bool \<Rightarrow> exc + pyval \<Rightarrow> exc + pyval \<Rightarrow> real option \<times> aod_label" where
  "fetch_satellite_proxy rt ee_available tempo_q modis_q =
     (if ee_available then
        (case (case get_tempo_no2_via_ee rt ee_available tempo_q of
                 None \<Rightarrow> None
               | Some no2 \<Rightarrow>
                 (case tempo_to_aod_proxy_from_no2 rt (PNum no2) of
                    None \<Rightarrow> None
                  | Some proxy \<Rightarrow> Some (proxy, TEMPO_NO2 (py_round_nd no2 3)))) of
           Some r \<Rightarrow> (Some (fst r), snd r)
         | None \<Rightarrow>
           (case get_modis_aod_via_ee rt ee_available modis_q of
              Some md \<Rightarrow> (Some (np_clip md 0.03 1.0), MODIS_AOD (py_round_nd md 3))
            | None \<Rightarrow> (None, DEMO_FALLBACK)))
      else (None, DEMO_FALLBACK))"

text \<open>Lines 427 to 431 of the script. \<open>float(polls["pm25"])\<close> is not inside a \<open>try\<close>: when
  it raises, the script stops.\<close>

definition satellite_stage ::
  "runtime \<Rightarrow> bool \<Rightarrow> exc + pyval \<Rightarrow> exc + pyval \<Rightarrow> reading \<Rightarrow> exc + real \<times> aod_label" where
  "satellite_stage rt ee_available tempo_q modis_q rd =
     (case fetch_satellite_proxy rt ee_available tempo_q modis_q of
        (Some aod_val, aod_source) \<Rightarrow> Inr (aod_val, aod_source)
      | (None, aod_source) \<Rightarrow>
        (case py_float rt (polls rd PM25) of
           Inl e \<Rightarrow> Inl e
         | Inr p \<Rightarrow>
           Inr (np_clip (p / 150.0) 0.03 1.0,
                if aod_source = DEMO_FALLBACK then PM25_proxy else aod_source)))"

subsection \<open>Forecast\<close>

text \<open>\<open>x % m\<close> on floats, for a positive \<open>m\<close>.\<close>

definition py_fmod :: "real \<Rightarrow> real \<Rightarrow> real" where
  "py_fmod x m = x - m * of_int \<lfloor>x / m\<rfloor>"

text \<open>The seed \<open>int((float(current_pm) * 100) % 10000)\<close>; \<open>int()\<close> truncates, and its
  argument is not negative.\<close>

definition forecast_seed :: "real \<Rightarrow> nat" where
  "forecast_seed pm = nat \<lfloor>py_fmod (pm * 100) 10000\<rfloor>"

text \<open>
  NumPy's generators: \<open>default_rng seed\<close> is the state of a fresh generator, and
  \<open>normal r loc scale\<close> is \<open>rng.normal(loc, scale)\<close> in the state \<open>r\<close>: the sample and the
  next state. The loop of \<open>hourly_forecast_pm\<close> runs \<open>n\<close> more times from the value
  \<open>last0\<close> of \<open>last\<close>.
\<close>

fun random_walk ::
  "('r \<Rightarrow> real \<Rightarrow> real \<Rightarrow> real \<times> 'r) \<Rightarrow> real \<Rightarrow> nat \<Rightarrow> real \<Rightarrow> 'r \<Rightarrow> real list" where
  "random_walk normal scale 0 last0 r = []"
| "random_walk normal scale (Suc n) last0 r =
     (case normal r 0 scale of (z, r') \<Rightarrow>
        (let last' = max 0.1 (last0 + z)
         in py_round_nd last' 1 # random_walk normal scale n last' r'))"

definition hourly_forecast_pm ::
  "runtime \<Rightarrow> (nat \<Rightarrow> 'r) \<Rightarrow> ('r \<Rightarrow> real \<Rightarrow> real \<Rightarrow> real \<times> 'r) \<Rightarrow> pyval \<Rightarrow> int \<Rightarrow> real
     \<Rightarrow> exc + real list" where
  "hourly_forecast_pm rt default_rng normal current_pm hours variance =
     (case py_float rt current_pm of
        Inl e \<Rightarrow> Inl e
      | Inr pm \<Rightarrow>
        Inr (random_walk normal (max 0.2 (pm * variance)) (nat hours) pm
               (default_rng (forecast_seed pm))))"

text \<open>
  The list comprehension of the branch with at least six historical samples. It draws
  from NumPy's global generator: \<open>np_random_normal g loc scale\<close> is \<open>np.random.normal\<close> in
  the global state \<open>g\<close>, which raises for a negative scale.
\<close>

fun trend_series ::
  "('g \<Rightarrow> real \<Rightarrow> real \<Rightarrow> exc + real \<times> 'g) \<Rightarrow> real \<Rightarrow> real \<Rightarrow> nat list \<Rightarrow> 'g \<Rightarrow> exc + real list \<times> 'g" where
  "trend_series np_random_normal base trend [] g = Inr ([], g)"
| "trend_series np_random_normal base trend (i # is) g =
     (case np_random_normal g 0 (base * 0.02) of
        Inl e \<Rightarrow> Inl e
      | Inr (z, g') \<Rightarrow>
        (case trend_series np_random_normal base trend is g' of
           Inl e \<Rightarrow> Inl e
         | Inr (vs, g'') \<Rightarrow>
           Inr (py_round_nd (max 0.1 (base + trend * (of_nat i + 1) + z)) 1 # vs, g'')))"

text \<open>Lines 455 to 465 of the script: the series \<open>pm24\<close>. \<open>pm_history\<close> holds numbers
  only; \<open>forecast_var\<close> is the slider value.\<close>

definition pm24_series ::
  "runtime \<Rightarrow> (nat \<Rightarrow> 'r) \<Rightarrow> ('r \<Rightarrow> real \<Rightarrow> real \<Rightarrow> real \<times> 'r)
     \<Rightarrow> ('g \<Rightarrow> real \<Rightarrow> real \<Rightarrow> exc + real \<times> 'g)
     \<Rightarrow> bool \<Rightarrow> real list \<Rightarrow> pyval \<Rightarrow> int \<Rightarrow> 'g \<Rightarrow> exc + real list \<times> 'g" where
  "pm24_series rt default_rng normal np_random_normal show_24h pm_history pm25 forecast_var g =
     (if show_24h then
        (if length pm_history \<ge> 6 then
           (let base = last pm_history;
                trend = (last pm_history - hd pm_history) / of_nat (max 1 (length pm_history - 1))
            in trend_series np_random_normal base trend [0..<24] g)
         else
           (case hourly_forecast_pm rt default_rng normal pm25 24 (of_int forecast_var / 100.0) of
              Inl e \<Rightarrow> Inl e
            | Inr s \<Rightarrow> Inr (s, g)))
      else Inr ([], g))"

section \<open>Properties of the AQI converter\<close>

lemma py_round_lower: "of_int a \<le> x \<Longrightarrow> a \<le> py_round x"
proof -
  assume "of_int a \<le> x"
  then have "a \<le> \<lfloor>x\<rfloor>" by (simp add: le_floor_iff)
  then show ?thesis by (simp add: py_round_def Let_def)
qed

lemma py_round_upper: "x \<le> of_int b \<Longrightarrow> py_round x \<le> b"
proof -
  assume le: "x \<le> of_int b"
  then have fl: "\<lfloor>x\<rfloor> \<le> b" by (simp add: floor_le_iff)
  show ?thesis
  proof (cases "\<lfloor>x\<rfloor> = b")
    case True
    then have "x - of_int \<lfloor>x\<rfloor> \<le> 0" using le by simp
    then show ?thesis using True by (simp add: py_round_def Let_def)
  next
    case False
    then have "\<lfloor>x\<rfloor> + 1 \<le> b" using fl by simp
    then show ?thesis by (simp add: py_round_def Let_def)
  qed
qed

lemma aqi_band_bounds:
  assumes "pm_l < pm_h" "a_l \<le> a_h" "pm_l \<le> pm" "pm \<le> pm_h"
  shows "a_l \<le> py_round ((of_int (a_h - a_l) / (pm_h - pm_l)) * (pm - pm_l) + of_int a_l)"
    and "py_round ((of_int (a_h - a_l) / (pm_h - pm_l)) * (pm - pm_l) + of_int a_l) \<le> a_h"
proof -
  let ?k = "(of_int (a_h - a_l) :: real) / (pm_h - pm_l)"
  have k0: "0 \<le> ?k" using assms by simp
  have lo: "0 \<le> ?k * (pm - pm_l)" using k0 assms by simp
  have "?k * (pm - pm_l) \<le> ?k * (pm_h - pm_l)"
    using k0 assms by (intro mult_left_mono) simp_all
  also have "\<dots> = of_int (a_h - a_l)" using assms by simp
  finally have hi: "?k * (pm - pm_l) + of_int a_l \<le> of_int a_h" by simp
  show "a_l \<le> py_round (?k * (pm - pm_l) + of_int a_l)"
    using lo by (intro py_round_lower) simp
  show "py_round (?k * (pm - pm_l) + of_int a_l) \<le> a_h"
    using hi by (intro py_round_upper)
qed

lemma aqi_scan_range:
  "list_all band_ok bps \<Longrightarrow> 0 \<le> aqi_scan bps pm \<and> aqi_scan bps pm \<le> 500"
proof (induction bps)
  case Nil
  then show ?case by simp
next
  case (Cons b bps)
  obtain pm_l pm_h a_l a_h where b: "b = (pm_l, pm_h, a_l, a_h)" by (cases b) auto
  from Cons.prems have bok: "band_ok b" and rest: "list_all band_ok bps" by simp_all
  from bok have ok: "pm_l < pm_h" "0 \<le> a_l" "a_l \<le> a_h" "a_h \<le> 500"
    by (simp_all add: b band_ok_def)
  show ?case
  proof (cases "pm_l \<le> pm \<and> pm \<le> pm_h")
    case True
    then show ?thesis
      using aqi_band_bounds[of pm_l pm_h a_l a_h pm] ok by (simp add: b)
  next
    case False
    then have "aqi_scan (b # bps) pm = aqi_scan bps pm" by (auto simp: b)
    then show ?thesis using Cons.IH[OF rest] by simp
  qed
qed

lemma EPA_BP_ok: "list_all band_ok EPA_BP"
  by (simp add: EPA_BP_def band_ok_def)

lemma pm25_to_aqi_range:
  "pm25_to_aqi rt v = Some a \<Longrightarrow> 0 \<le> a \<and> a \<le> 500"
  using aqi_scan_range[OF EPA_BP_ok] by (auto simp: pm25_to_aqi_def split: sum.splits)

lemma py_round_mono: "x \<le> y \<Longrightarrow> py_round x \<le> py_round y"
proof -
  assume le: "x \<le> y"
  then have fl: "\<lfloor>x\<rfloor> \<le> \<lfloor>y\<rfloor>" by (rule floor_mono)
  show ?thesis
  proof (cases "\<lfloor>x\<rfloor> = \<lfloor>y\<rfloor>")
    case True
    then have "x - of_int \<lfloor>x\<rfloor> \<le> y - of_int \<lfloor>y\<rfloor>" using le by simp
    then show ?thesis using True by (auto simp: py_round_def Let_def)
  next
    case False
    then have "\<lfloor>x\<rfloor> + 1 \<le> \<lfloor>y\<rfloor>" using fl by simp
    moreover have "py_round x \<le> \<lfloor>x\<rfloor> + 1" by (simp add: py_round_def Let_def)
    moreover have "\<lfloor>y\<rfloor> \<le> py_round y" by (simp add: py_round_def Let_def)
    ultimately show ?thesis by linarith
  qed
qed

lemma aqi_scan_lower:
  "list_all band_ok bps \<Longrightarrow> list_all (\<lambda>c. a \<le> fst (snd (snd c))) bps \<Longrightarrow> in_table bps pm
   \<Longrightarrow> a \<le> aqi_scan bps pm"
proof (induction bps)
  case Nil
  then show ?case by simp
next
  case (Cons b bps)
  obtain pm_l pm_h a_l a_h where b: "b = (pm_l, pm_h, a_l, a_h)" by (cases b) auto
  from Cons.prems(1) have bok: "band_ok b" and rest: "list_all band_ok bps" by simp_all
  from bok have ok: "pm_l < pm_h" "a_l \<le> a_h" by (simp_all add: b band_ok_def)
  from Cons.prems(2) have al: "a \<le> a_l" and rest2: "list_all (\<lambda>c. a \<le> fst (snd (snd c))) bps"
    by (simp_all add: b)
  show ?case
  proof (cases "pm_l \<le> pm \<and> pm \<le> pm_h")
    case True
    then have "a_l \<le> aqi_scan (b # bps) pm"
      using aqi_band_bounds(1)[of pm_l pm_h a_l a_h pm] ok by (simp add: b)
    then show ?thesis using al by linarith
  next
    case False
    then have e: "aqi_scan (b # bps) pm = aqi_scan bps pm" by (auto simp: b)
    from False Cons.prems(3) have "in_table bps pm" by (auto simp: b)
    then show ?thesis using Cons.IH[OF rest rest2] e by simp
  qed
qed

lemma in_table_after:
  "list_all (after_band b) bps \<Longrightarrow> in_table bps pm \<Longrightarrow> fst (snd b) < pm"
proof (induction bps)
  case Nil
  then show ?case by simp
next
  case (Cons c bps)
  obtain pm_l pm_h a_l a_h where c: "c = (pm_l, pm_h, a_l, a_h)" by (cases c) auto
  from Cons.prems(1) have abc: "after_band b c" and rest: "list_all (after_band b) bps"
    by simp_all
  from abc have ab: "fst (snd b) < pm_l" by (simp add: c after_band_def)
  show ?case
  proof (cases "pm_l \<le> pm \<and> pm \<le> pm_h")
    case True
    then show ?thesis using ab by linarith
  next
    case False
    with Cons.prems(2) have "in_table bps pm" by (auto simp: c)
    then show ?thesis by (rule Cons.IH[OF rest])
  qed
qed

lemma aqi_scan_mono_on_table:
  "table_ok bps \<Longrightarrow> in_table bps pm1 \<Longrightarrow> in_table bps pm2 \<Longrightarrow> pm1 \<le> pm2
   \<Longrightarrow> aqi_scan bps pm1 \<le> aqi_scan bps pm2"
proof (induction bps)
  case Nil
  then show ?case by simp
next
  case (Cons b bps)
  obtain pm_l pm_h a_l a_h where b: "b = (pm_l, pm_h, a_l, a_h)" by (cases b) auto
  from Cons.prems(1) have bok: "band_ok b" and aft: "list_all (after_band b) bps"
    and tok: "table_ok bps" by simp_all
  from bok have ok: "pm_l < pm_h" "a_l \<le> a_h" by (simp_all add: b band_ok_def)
  let ?f = "\<lambda>pm. (of_int (a_h - a_l) / (pm_h - pm_l)) * (pm - pm_l) + of_int a_l"
  have slope: "0 \<le> (of_int (a_h - a_l) :: real) / (pm_h - pm_l)" using ok by simp
  show ?case
  proof (cases "pm_l \<le> pm1 \<and> pm1 \<le> pm_h")
    case in1: True
    then have v1: "aqi_scan (b # bps) pm1 = py_round (?f pm1)" by (simp add: b)
    show ?thesis
    proof (cases "pm_l \<le> pm2 \<and> pm2 \<le> pm_h")
      case True
      then have v2: "aqi_scan (b # bps) pm2 = py_round (?f pm2)" by (simp add: b)
      have "pm1 - pm_l \<le> pm2 - pm_l" using Cons.prems(4) by simp
      then have "(of_int (a_h - a_l) / (pm_h - pm_l)) * (pm1 - pm_l)
                   \<le> (of_int (a_h - a_l) / (pm_h - pm_l)) * (pm2 - pm_l)"
        using slope by (rule mult_left_mono)
      then have "?f pm1 \<le> ?f pm2" by linarith
      then show ?thesis using v1 v2 py_round_mono by simp
    next
      case False
      then have e2: "aqi_scan (b # bps) pm2 = aqi_scan bps pm2" by (auto simp: b)
      from False Cons.prems(3) have t2: "in_table bps pm2" by (auto simp: b)
      have oks: "list_all band_ok bps" using tok by (induction bps) simp_all
      have lows: "list_all (\<lambda>c. a_h \<le> fst (snd (snd c))) bps"
        using aft by (simp add: list_all_iff after_band_def b)
      have "a_h \<le> aqi_scan bps pm2" by (rule aqi_scan_lower[OF oks lows t2])
      moreover have "py_round (?f pm1) \<le> a_h"
        using aqi_band_bounds(2)[of pm_l pm_h a_l a_h pm1] ok in1 by simp
      ultimately show ?thesis using v1 e2 by linarith
    qed
  next
    case out1: False
    then have e1: "aqi_scan (b # bps) pm1 = aqi_scan bps pm1" by (auto simp: b)
    from out1 Cons.prems(2) have t1: "in_table bps pm1" by (auto simp: b)
    have gt: "pm_h < pm1" using in_table_after[OF aft t1] by (simp add: b)
    then have out2: "\<not> (pm_l \<le> pm2 \<and> pm2 \<le> pm_h)" using Cons.prems(4) by linarith
    then have e2: "aqi_scan (b # bps) pm2 = aqi_scan bps pm2" by (auto simp: b)
    from out2 Cons.prems(3) have t2: "in_table bps pm2" by (auto simp: b)
    show ?thesis using Cons.IH[OF tok t1 t2 Cons.prems(4)] e1 e2 by simp
  qed
qed

lemma EPA_BP_table_ok: "table_ok EPA_BP"
  by (simp add: EPA_BP_def band_ok_def after_band_def)

lemma pm25_to_aqi_mono_on_rows:
  "in_table EPA_BP pm1 \<Longrightarrow> in_table EPA_BP pm2 \<Longrightarrow> pm1 \<le> pm2
   \<Longrightarrow> pm25_to_aqi rt (PNum pm1) = Some a1 \<Longrightarrow> pm25_to_aqi rt (PNum pm2) = Some a2 \<Longrightarrow> a1 \<le> a2"
  using aqi_scan_mono_on_table[OF EPA_BP_table_ok] by (auto simp: pm25_to_aqi_def)

text \<open>
  C1. For every PM2.5 concentration in \<open>[0, 500.4]\<close> the converter returns an integer in
  \<open>[0, 500]\<close> (lemma \<open>pm25_to_aqi_range\<close>, which holds for every numeric input), and
  the claim adds that the result is non-decreasing in the concentration. That holds among
  the concentrations that lie in a row of the table (lemma \<open>pm25_to_aqi_mono_on_rows\<close>),
  but the code falls through the table for a concentration between two rows: at 12.0625 it
  returns the out-of-range sentinel 500, at the larger concentration 13 it returns 53.
\<close>

theorem pm25_to_aqi_not_monotone:
  "pm25_to_aqi rt (PNum 12.0625) = Some 500 \<and> pm25_to_aqi rt (PNum 13) = Some 53"
  by (simp add: pm25_to_aqi_def EPA_BP_def py_round_def Let_def)

lemma aqi_scan_outside: "x < 0 \<or> 500.4 < x \<Longrightarrow> aqi_scan EPA_BP x = 500"
  unfolding EPA_BP_def aqi_scan.simps by (elim disjE) simp_all

text \<open>
  C8. \<open>pm25_to_aqi\<close> returns the sentinel 500 for every numeric input below 0 or above
  500.4, and returns \<open>None\<close> exactly when \<open>float()\<close> of the input raises.
\<close>

theorem pm25_to_aqi_sentinels:
  "(py_float rt v = Inr x \<and> (x < 0 \<or> 500.4 < x) \<longrightarrow> pm25_to_aqi rt v = Some 500)
   \<and> (pm25_to_aqi rt v = None \<longleftrightarrow> (\<exists>e. py_float rt v = Inl e))"
proof (intro conjI impI)
  assume "py_float rt v = Inr x \<and> (x < 0 \<or> 500.4 < x)"
  then show "pm25_to_aqi rt v = Some 500"
    using aqi_scan_outside[of x] by (simp add: pm25_to_aqi_def)
next
  show "pm25_to_aqi rt v = None \<longleftrightarrow> (\<exists>e. py_float rt v = Inl e)"
    by (cases "py_float rt v") (simp_all add: pm25_to_aqi_def)
qed

theorem pm25_to_aqi_sentinels_witness:
  "py_float ascii_runtime (PNum (- 1)) = Inr (- 1) \<and> ((- 1 :: real) < 0 \<or> 500.4 < (- 1 :: real))
   \<and> pm25_to_aqi ascii_runtime (PNum (- 1)) = Some 500
   \<and> pm25_to_aqi ascii_runtime (PStr (u ''n/a'')) = None"
  using pm25_to_aqi_sentinels[of ascii_runtime "PNum (- 1)" "- 1"]
    pm25_to_aqi_sentinels[of ascii_runtime "PStr (u ''n/a'')"]
  by (simp add: ascii_runtime_def)

text \<open>
  C10. A PM2.5 value strictly between two adjacent rows of the breakpoint table matches no
  row, and \<open>pm25_to_aqi\<close> returns 500.
\<close>

theorem pm25_to_aqi_gaps:
  assumes "(12.0 < pm \<and> pm < 12.1) \<or> (35.4 < pm \<and> pm < 35.5) \<or> (55.4 < pm \<and> pm < 55.5)
     \<or> (150.4 < pm \<and> pm < 150.5) \<or> (250.4 < pm \<and> pm < 250.5) \<or> (350.4 < pm \<and> pm < 350.5)"
  shows "pm25_to_aqi rt (PNum pm) = Some 500"
proof -
  have "aqi_scan EPA_BP pm = 500"
    using assms unfolding EPA_BP_def aqi_scan.simps by (elim disjE conjE) simp_all
  then show ?thesis by (simp add: pm25_to_aqi_def)
qed

theorem pm25_to_aqi_gaps_witness:
  "(12.0 < (12.05::real) \<and> (12.05::real) < 12.1) \<and> pm25_to_aqi ascii_runtime (PNum 12.05) = Some 500
   \<and> (350.4 < (350.45::real) \<and> (350.45::real) < 350.5) \<and> pm25_to_aqi ascii_runtime (PNum 350.45) = Some 500"
  using pm25_to_aqi_gaps[of "12.05" ascii_runtime] pm25_to_aqi_gaps[of "350.45" ascii_runtime]
  by simp

section \<open>Properties of the label normalizer\<close>

lemma concat_singletons: "concat (map (\<lambda>i. [f i]) xs) = map f xs"
  by (induction xs) simp_all

lemma py_lower_az09: "list_all is_az09 s \<Longrightarrow> py_lower rt s = s"
proof -
  assume a: "list_all is_az09 s"
  let ?f = "\<lambda>i. let c = s ! i
                      in if c < 128 then [ascii_lower c]
                         else if c = 8322 \<or> c = 8323 \<or> c = 8325 then [c]
                         else lower_nonascii rt s i"
  have eq: "map ?f [0..<length s] = map (\<lambda>i. [s ! i]) [0..<length s]"
  proof (rule map_cong[OF refl])
    fix i assume "i \<in> set [0..<length s]"
    then have "is_az09 (s ! i)" using a by (simp add: list_all_length)
    then show "?f i = [s ! i]"
      by (auto simp: is_az09_def ascii_lower_def Let_def)
  qed
  have "py_lower rt s = concat (map ?f [0..<length s])"
    by (simp only: py_lower_def)
  also have "\<dots> = concat (map (\<lambda>i. [s ! i]) [0..<length s])"
    by (simp only: eq)
  also have "\<dots> = map (\<lambda>i. s ! i) [0..<length s]"
    by (rule concat_singletons)
  also have "\<dots> = s"
    by (rule map_nth)
  finally show ?thesis .
qed

lemma replace1_az09: "list_all is_az09 s \<Longrightarrow> \<not> is_az09 a \<Longrightarrow> replace1 a b s = s"
  by (induction s) (auto simp: replace1_def)

lemma normalize_label_az09: "list_all is_az09 (normalize_label rt x)"
  by (cases x) (simp_all add: normalize_label_def Let_def list_all_iff)

lemma normalize_label_fix: "list_all is_az09 s \<Longrightarrow> normalize_label rt (PStr s) = s"
proof -
  assume a: "list_all is_az09 s"
  have n: "\<not> is_az09 8322" "\<not> is_az09 8323" "\<not> is_az09 8325" by (simp_all add: is_az09_def)
  have "filter is_az09 s = s" using a by (simp add: list_all_iff)
  then show ?thesis
    using a n by (simp add: normalize_label_def py_str_def py_lower_az09 replace1_az09)
qed

text \<open>
  C9. The label normalizer is idempotent on every input; \<open>"NO\<^sub>2"\<close> written with the
  subscript digit U+2082 and \<open>"no2"\<close> both normalize to \<open>"no2"\<close>; \<open>None\<close> normalizes to
  the empty string.
\<close>

theorem normalize_label_idempotent:
  "normalize_label rt (PStr (normalize_label rt x)) = normalize_label rt x
   \<and> normalize_label rt (PStr [78, 79, 8322]) = u ''no2''
   \<and> normalize_label rt (PStr (u ''no2'')) = u ''no2''
   \<and> normalize_label rt PNone = []"
proof (intro conjI)
  show "normalize_label rt (PStr (normalize_label rt x)) = normalize_label rt x"
    by (rule normalize_label_fix[OF normalize_label_az09])
  show "normalize_label rt (PStr [78, 79, 8322]) = u ''no2''"
    by (simp add: normalize_label_def py_str_def py_lower_def ascii_lower_def replace1_def
        is_az09_def u_def upt_rec)
  show "normalize_label rt (PStr (u ''no2'')) = u ''no2''"
    by (simp add: normalize_label_def py_str_def py_lower_def ascii_lower_def replace1_def
        is_az09_def u_def upt_rec)
  show "normalize_label rt PNone = []"
    by (simp add: normalize_label_def)
qed

section \<open>Properties of the ingestion\<close>

lemma normalize_label_pm25: "normalize_label rt (PStr (u ''pm25'')) = u ''pm25''"
  by (rule normalize_label_fix) (simp add: u_def is_az09_def)

lemma pseudo_live_unbound: "pseudo_live None now ts = False"
  by (simp add: pseudo_live_def)

lemma pseudo_live_bound:
  "truthy ts \<Longrightarrow> f ts = Inr (Some t) \<Longrightarrow> pseudo_live (Some f) now ts = (now - t \<le> 48 * 3600)"
  by (simp add: pseudo_live_def)

lemma pseudo_flag_bound:
  assumes "truthy ts" and "f ts = Inr (Some t)"
  shows "live_flags (ingest_one rt (Some f) (Some Pseudo) now
      \<lparr>parameter = PStr (u ''pm25''), val = PNum 10, lastUpdated = ts\<rparr> reading0) PM25
    = (now - t \<le> 48 * 3600)"
  using assms
  by (simp add: ingest_one_def normalize_label_pm25 slot_of_def pseudo_live_bound Let_def)

lemma pseudo_live_boundary:
  assumes "truthy ts" and "f ts = Inr (Some t)"
  shows "pseudo_live (Some f) (t + 48.0 * 3600) ts" and "\<not> pseudo_live (Some f) (t + 48.01 * 3600) ts"
  using assms by (simp_all add: pseudo_live_bound)

text \<open>
  C2. In pseudo mode the live flag of a measurement should be true exactly when its
  timestamp is at most 48 hours old. With \<open>iso_to_dt\<close> bound to a parser the loop computes
  that (lemmas \<open>pseudo_flag_bound\<close> and \<open>pseudo_live_boundary\<close>: true at 48.0 hours, false
  at 48.01); in the program as it is the name is unbound, and the flag of a pseudo-mode
  PM2.5 measurement is false for every timestamp and every reading of the clock, so also
  at an age of exactly 48.0 hours.
\<close>

theorem pseudo_flag_never_live:
  "live_flags (ingest_one rt iso_to_dt (Some Pseudo) now
      \<lparr>parameter = PStr (u ''pm25''), val = PNum 10, lastUpdated = ts\<rparr> reading0) PM25 = False"
  by (simp add: ingest_one_def normalize_label_pm25 slot_of_def iso_to_dt_def pseudo_live_unbound
      Let_def)

section \<open>Properties of the completion\<close>

lemma fill_one_step:
  assumes "polls rd PM25 = PNum p" and "\<forall>j. \<not> live_flags rd j"
    and "\<forall>j. polls rd j = PNone \<or> (\<exists>x. polls rd j = PNum x)"
  shows "\<exists>rd' g'. fill_one rt uniform k (rd, g) = (rd', g')
           \<and> polls rd' PM25 = PNum p \<and> (\<forall>j. \<not> live_flags rd' j)
           \<and> (\<forall>j. polls rd' j = PNone \<or> (\<exists>x. polls rd' j = PNum x))
           \<and> (\<exists>x. polls rd' k = PNum x)
           \<and> (\<forall>j. (\<exists>x. polls rd j = PNum x) \<longrightarrow> (\<exists>x. polls rd' j = PNum x))"
proof (cases "polls rd k = PNone \<and> k \<noteq> PM25")
  case True
  obtain r g' where ug: "uniform g 0.6 1.4 = (r, g')" by (cases "uniform g 0.6 1.4") auto
  have "fill_one rt uniform k (rd, g) =
          (rd\<lparr>polls := (polls rd)(k := PNum (py_round_nd (max 0.1 (p * r)) 1)),
              live_flags := (live_flags rd)(k := False)\<rparr>, g')"
    using True assms(1) ug by (simp add: fill_one_def)
  then show ?thesis using True assms by auto
next
  case False
  then have eq: "fill_one rt uniform k (rd, g) = (rd, g)" by (auto simp: fill_one_def)
  have "\<exists>x. polls rd k = PNum x" using False assms(1,3) by (cases "k = PM25") auto
  then show ?thesis using eq assms by auto
qed

lemma fill_fold:
  assumes "polls rd PM25 = PNum p" and "\<forall>j. \<not> live_flags rd j"
    and "\<forall>j. polls rd j = PNone \<or> (\<exists>x. polls rd j = PNum x)"
  shows "\<exists>rd' g'. fold (fill_one rt uniform) ks (rd, g) = (rd', g')
           \<and> (\<forall>j. \<not> live_flags rd' j)
           \<and> (\<forall>j. j \<in> set ks \<or> (\<exists>x. polls rd j = PNum x) \<longrightarrow> (\<exists>x. polls rd' j = PNum x))"
  using assms
proof (induction ks arbitrary: rd g)
  case Nil
  then show ?case by simp
next
  case (Cons k ks)
  from fill_one_step[OF Cons.prems, of rt uniform k g]
  obtain rd1 g1 where s: "fill_one rt uniform k (rd, g) = (rd1, g1)"
    and i1: "polls rd1 PM25 = PNum p" and i2: "\<forall>j. \<not> live_flags rd1 j"
    and i3: "\<forall>j. polls rd1 j = PNone \<or> (\<exists>x. polls rd1 j = PNum x)"
    and nk: "\<exists>x. polls rd1 k = PNum x"
    and keep: "\<forall>j. (\<exists>x. polls rd j = PNum x) \<longrightarrow> (\<exists>x. polls rd1 j = PNum x)"
    by blast
  from Cons.IH[OF i1 i2 i3, of g1]
  obtain rd' g' where f: "fold (fill_one rt uniform) ks (rd1, g1) = (rd', g')"
    and j2: "\<forall>j. \<not> live_flags rd' j"
    and j3: "\<forall>j. j \<in> set ks \<or> (\<exists>x. polls rd1 j = PNum x) \<longrightarrow> (\<exists>x. polls rd' j = PNum x)"
    by blast
  have "fold (fill_one rt uniform) (k # ks) (rd, g) = (rd', g')" using s f by simp
  moreover have "\<forall>j. j \<in> set (k # ks) \<or> (\<exists>x. polls rd j = PNum x) \<longrightarrow> (\<exists>x. polls rd' j = PNum x)"
    using j3 nk keep by auto
  ultimately show ?case using j2 by blast
qed

lemma poll_keys_all: "k \<in> set poll_keys"
  by (cases k) (simp_all add: poll_keys_def)

lemma pm25_fallback_reading0:
  "pm25_fallback rt lat reading0 =
     reading0\<lparr>polls := (polls reading0)(PM25 := PNum (geo_baseline rt lat 10))\<rparr>"
  by (simp add: pm25_fallback_def reading0_def fun_eq_iff)

text \<open>
  C3. With no measurements (the empty result of the resolver, whatever the mode), the
  completion leaves a number in each of the six slots and every live flag false.
\<close>

theorem complete_empty_all_numeric:
  "(\<forall>k. \<exists>x. polls (fst (complete rt bnd uniform clock lat [] st g)) k = PNum x)
   \<and> (\<forall>k. \<not> live_flags (fst (complete rt bnd uniform clock lat [] st g)) k)"
proof -
  let ?rd = "pm25_fallback rt lat reading0"
  have a1: "polls ?rd PM25 = PNum (geo_baseline rt lat 10)"
    by (simp add: pm25_fallback_reading0)
  have a2: "\<forall>j. \<not> live_flags ?rd j"
    by (simp add: pm25_fallback_reading0) (simp add: reading0_def)
  have a3: "\<forall>j. polls ?rd j = PNone \<or> (\<exists>x. polls ?rd j = PNum x)"
    by (simp add: pm25_fallback_reading0) (simp add: reading0_def)
  from fill_fold[OF a1 a2 a3, of rt uniform poll_keys g]
  obtain rd' g' where f: "fold (fill_one rt uniform) poll_keys (?rd, g) = (rd', g')"
    and j2: "\<forall>j. \<not> live_flags rd' j"
    and j3: "\<forall>j. j \<in> set poll_keys \<or> (\<exists>x. polls ?rd j = PNum x) \<longrightarrow> (\<exists>x. polls rd' j = PNum x)"
    by blast
  have c: "complete rt bnd uniform clock lat [] st g = (rd', g')"
    using f by (simp add: complete_def fill_missing_def)
  show ?thesis using c j2 j3 poll_keys_all by simp
qed

section \<open>Properties of the PM2.5 fallback\<close>

text \<open>Rounding to a double: symmetry, the bounds within a binade, monotonicity, and the
  integers that are doubles.\<close>

lemma py_round_of_int: "py_round (of_int m) = m"
  by (simp add: py_round_def Let_def)

lemma py_round_minus: "py_round (- y) = - py_round y"
proof (cases "y = of_int \<lfloor>y\<rfloor>")
  case True
  then obtain m where "y = of_int m" by blast
  then have "- y = of_int (- m)" by simp
  then show ?thesis using \<open>y = of_int m\<close> py_round_of_int by metis
next
  case False
  then have fl: "\<lfloor>- y\<rfloor> = - \<lfloor>y\<rfloor> - 1"
    by (simp add: floor_minus ceiling_altdef)
  define f where "f = \<lfloor>y\<rfloor>"
  define d where "d = y - of_int f"
  have d: "0 < d" "d < 1" using False by (simp_all add: d_def f_def) linarith+
  have y: "y = of_int f + d" by (simp add: d_def)
  have e: "even (- f - 1) = odd f" by simp
  show ?thesis
    using d e unfolding py_round_def Let_def fl f_def[symmetric]
    by (auto simp: y)
qed


lemma binary64_binade:
  assumes "2 powr of_int k \<le> \<bar>x\<bar>" "\<bar>x\<bar> < 2 powr (of_int k + 1)"
  shows "binary64 x = of_int (py_round (x / 2 powr (of_int k - 52))) * 2 powr (of_int k - 52)"
proof -
  have "0 < (2::real) powr of_int k" by simp
  then have pos: "0 < \<bar>x\<bar>" using assms(1) by linarith
  then have "\<lfloor>log 2 \<bar>x\<bar>\<rfloor> = k"
    using assms by (simp add: floor_log_eq_powr_iff)
  then show ?thesis using pos by (simp add: binary64_def Let_def)
qed

lemma binade_exists:
  assumes "x \<noteq> 0"
  shows "2 powr of_int \<lfloor>log 2 \<bar>x\<bar>\<rfloor> \<le> \<bar>x\<bar> \<and> \<bar>x\<bar> < 2 powr (of_int \<lfloor>log 2 \<bar>x\<bar>\<rfloor> + 1)"
  using assms floor_log_eq_powr_iff[of "\<bar>x\<bar>" 2 "\<lfloor>log 2 \<bar>x\<bar>\<rfloor>"] by simp

lemma binary64_minus: "binary64 (- x) = - binary64 x"
  by (simp add: binary64_def Let_def py_round_minus)

lemma binary64_pos_bounds:
  assumes "2 powr of_int k \<le> x" "x < 2 powr (of_int k + 1)"
  shows "2 powr of_int k \<le> binary64 x" and "binary64 x \<le> 2 powr (of_int k + 1)"
proof -
  define u :: real where "u = 2 powr (of_int k - 52)"
  define n where "n = py_round (x / u)"
  have u: "0 < u" by (simp add: u_def)
  have "0 < (2::real) powr of_int k" by simp
  then have xpos: "0 < x" using assms(1) by linarith
  have b: "binary64 x = of_int n * u"
    using binary64_binade[of k x] assms xpos by (simp add: u_def n_def)
  have lo: "(2::real) powr of_int k = of_int (2 ^ 52) * u"
    by (simp add: u_def powr_diff)
  have hi: "(2::real) powr (of_int k + 1) = of_int (2 ^ 53) * u"
    by (simp add: u_def powr_diff powr_add)
  have "of_int (2 ^ 52) * u \<le> x" using assms(1) lo by simp
  then have "of_int (2 ^ 52) \<le> x / u" using u by (simp add: pos_le_divide_eq)
  then have "2 ^ 52 \<le> n" unfolding n_def by (rule py_round_lower)
  then have l: "(of_int (2 ^ 52) :: real) \<le> of_int n" by (simp only: of_int_le_iff)
  have "x \<le> of_int (2 ^ 53) * u" using assms(2) hi by simp
  then have "x / u \<le> of_int (2 ^ 53)" using u by (simp add: pos_divide_le_eq)
  then have "n \<le> 2 ^ 53" unfolding n_def by (rule py_round_upper)
  then have h: "(of_int n :: real) \<le> of_int (2 ^ 53)" by (simp only: of_int_le_iff)
  show "2 powr of_int k \<le> binary64 x"
    unfolding b lo using l u by (intro mult_right_mono) simp_all
  show "binary64 x \<le> 2 powr (of_int k + 1)"
    unfolding b hi using h u by (intro mult_right_mono) simp_all
qed

lemma binary64_pos: "0 < x \<Longrightarrow> 0 < binary64 x"
proof -
  assume x: "0 < x"
  let ?k = "\<lfloor>log 2 \<bar>x\<bar>\<rfloor>"
  have "2 powr of_int ?k \<le> x \<and> x < 2 powr (of_int ?k + 1)"
    using binade_exists[of x] x by simp
  then have "2 powr of_int ?k \<le> binary64 x" using binary64_pos_bounds(1) by blast
  moreover have "0 < (2::real) powr of_int ?k" by simp
  ultimately show ?thesis by linarith
qed

lemma binary64_mono_pos:
  assumes "0 < x" "x \<le> y"
  shows "binary64 x \<le> binary64 y"
proof -
  let ?kx = "\<lfloor>log 2 \<bar>x\<bar>\<rfloor>" and ?ky = "\<lfloor>log 2 \<bar>y\<bar>\<rfloor>"
  have y: "0 < y" using assms by linarith
  have bx: "2 powr of_int ?kx \<le> x" "x < 2 powr (of_int ?kx + 1)"
    using binade_exists[of x] assms(1) by simp_all
  have biny: "2 powr of_int ?ky \<le> y" "y < 2 powr (of_int ?ky + 1)"
    using binade_exists[of y] y by simp_all
  have "log 2 x \<le> log 2 y" using assms by simp
  then have kk: "?kx \<le> ?ky" using assms(1) y by (simp add: floor_mono)
  show ?thesis
  proof (cases "?kx = ?ky")
    case True
    let ?u = "(2::real) powr (of_int ?kx - 52)"
    have u: "0 < ?u" by simp
    have ex: "binary64 x = of_int (py_round (x / ?u)) * ?u"
      using binary64_binade[of ?kx x] bx assms(1) by simp
    have ey: "binary64 y = of_int (py_round (y / ?u)) * ?u"
      using binary64_binade[of ?kx y] biny True y by simp
    have "x / ?u \<le> y / ?u" using assms(2) u by (simp add: divide_right_mono)
    then have "py_round (x / ?u) \<le> py_round (y / ?u)" by (rule py_round_mono)
    then show ?thesis using ex ey u by (simp add: mult_right_mono)
  next
    case False
    then have "?kx + 1 \<le> ?ky" using kk by simp
    then have "(2::real) powr (of_int ?kx + 1) \<le> 2 powr of_int ?ky"
      by (metis of_int_1 of_int_add of_int_le_iff one_le_numeral powr_mono)
    moreover have "binary64 x \<le> 2 powr (of_int ?kx + 1)" using binary64_pos_bounds(2)[OF bx] .
    moreover have "2 powr of_int ?ky \<le> binary64 y" using binary64_pos_bounds(1)[OF biny] .
    ultimately show ?thesis by linarith
  qed
qed

lemma binary64_mono: "x \<le> y \<Longrightarrow> binary64 x \<le> binary64 y"
proof -
  assume le: "x \<le> y"
  consider "0 < x" | "x = 0" | "x < 0" "y < 0" | "x < 0" "0 \<le> y" by linarith
  then show ?thesis
  proof cases
    case 1
    then show ?thesis using le by (rule binary64_mono_pos)
  next
    case 2
    then show ?thesis
      using le binary64_pos[of y] by (cases "y = 0") (simp_all add: binary64_def)
  next
    case 3
    then have "binary64 (- y) \<le> binary64 (- x)"
      using le by (intro binary64_mono_pos) simp_all
    then show ?thesis by (simp add: binary64_minus)
  next
    case 4
    have "0 < binary64 (- x)" using 4(1) by (intro binary64_pos) simp
    then have "binary64 x < 0" by (simp add: binary64_minus)
    moreover have "0 \<le> binary64 y"
      using 4(2) binary64_pos[of y] by (cases "y = 0") (simp_all add: binary64_def)
    ultimately show ?thesis by linarith
  qed
qed


lemma binary64_of_int:
  assumes "\<bar>n\<bar> < 2 ^ 53"
  shows "binary64 (of_int n) = of_int n"
proof (cases "n = 0")
  case True
  then show ?thesis by (simp add: binary64_def)
next
  case False
  define x :: real where "x = of_int n"
  define k where "k = \<lfloor>log 2 \<bar>x\<bar>\<rfloor>"
  have x0: "x \<noteq> 0" using False by (simp add: x_def)
  have x1: "1 \<le> \<bar>x\<bar>" using False unfolding x_def by (metis of_int_abs of_int_1_le_iff abs_ge_zero
        linorder_not_less zero_less_abs_iff zless_imp_add1_zle add_0)
  have bin: "2 powr of_int k \<le> \<bar>x\<bar>" "\<bar>x\<bar> < 2 powr (of_int k + 1)"
    using binade_exists[OF x0] by (simp_all add: k_def)
  have "0 \<le> log 2 \<bar>x\<bar>" using x1 by simp
  then have k0: "0 \<le> k" by (simp add: k_def)
  have "\<bar>x\<bar> < 2 ^ 53" using assms unfolding x_def
    by (metis of_int_abs of_int_less_iff of_int_numeral of_int_power)
  then have "log 2 \<bar>x\<bar> < 53"
    using x0 by (simp add: log_less_iff)
  then have k52: "k \<le> 52" unfolding k_def by (simp add: floor_le_iff)
  define m where "m = nat (52 - k)"
  have "real_of_int k - 52 = - real m" using k52 by (simp add: m_def)
  then have u: "(2::real) powr (of_int k - 52) = 1 / 2 ^ m"
    by (simp add: powr_minus powr_realpow divide_simps)
  have "x / (2 powr (of_int k - 52)) = of_int (n * 2 ^ m)"
    by (simp add: u x_def)
  then have "py_round (x / (2 powr (of_int k - 52))) = n * 2 ^ m"
    by (simp only: py_round_of_int)
  then have "binary64 x = of_int (n * 2 ^ m) * (1 / 2 ^ m)"
    using binary64_binade[OF bin] u by simp
  then show ?thesis by (simp add: x_def)
qed

lemma binary64_like_double: "binary64_like double_runtime"
proof -
  have m: "\<forall>x y. x \<le> y \<longrightarrow> binary64 x \<le> binary64 y" using binary64_mono by blast
  have i: "\<forall>n::int. \<bar>n\<bar> < 2 ^ 53 \<longrightarrow> binary64 (of_int n) = of_int n"
    using binary64_of_int by blast
  have s: "\<forall>x. \<bar>binary64 (sin x)\<bar> \<le> 1"
  proof
    fix x :: real
    have "binary64 (sin x) \<le> binary64 (of_int 1)" by (intro binary64_mono) simp
    moreover have "binary64 (of_int (- 1)) \<le> binary64 (sin x)" by (intro binary64_mono) simp
    moreover have "binary64 (of_int 1) = of_int 1" by (rule binary64_of_int) simp
    moreover have "binary64 (of_int (- 1)) = of_int (- 1)" by (rule binary64_of_int) simp
    ultimately show "\<bar>binary64 (sin x)\<bar> \<le> 1" by simp
  qed
  show ?thesis using m i s by (simp add: binary64_like_def double_runtime_def ascii_runtime_def)
qed

lemma binary64_like_exact: "binary64_like ascii_runtime"
  by (simp add: binary64_like_def ascii_runtime_def)

lemma py_round_nd1_bounds:
  assumes "of_int a \<le> x * 10" "x * 10 \<le> of_int b"
  shows "of_int a / 10 \<le> py_round_nd x 1 \<and> py_round_nd x 1 \<le> of_int b / 10"
proof -
  have "a \<le> py_round (x * 10)" using assms(1) by (rule py_round_lower)
  moreover have "py_round (x * 10) \<le> b" using assms(2) by (rule py_round_upper)
  ultimately show ?thesis by (simp add: py_round_nd_def divide_le_cancel)
qed

lemma geo_baseline_bounds:
  assumes rt: "binary64_like rt" and c: "c = 10 \<or> c = 15"
  shows "5 \<le> geo_baseline rt lat c \<and> geo_baseline rt lat c \<le> 5 + c"
proof -
  have mono: "\<And>x y. x \<le> y \<Longrightarrow> fl rt x \<le> fl rt y" using rt by (simp add: binary64_like_def)
  have fixi: "\<And>n::int. \<bar>n\<bar> < 2 ^ 53 \<Longrightarrow> fl rt (of_int n) = of_int n"
    using rt by (simp add: binary64_like_def)
  have f0: "fl rt 0 = 0" using fixi[of 0] by simp
  have f5: "fl rt 5 = 5" using fixi[of 5] by simp
  have f10: "fl rt 10 = 10" using fixi[of 10] by simp
  have f15: "fl rt 15 = 15" using fixi[of 15] by simp
  have f20: "fl rt 20 = 20" using fixi[of 20] by simp
  define s where "s = \<bar>math_sin rt (fl rt (lat / 12.0))\<bar>"
  have s: "0 \<le> s" "s \<le> 1" using rt by (simp_all add: s_def binary64_like_def)
  define m where "m = fl rt (s * c)"
  define t where "t = fl rt (5 + m)"
  define r where "r = py_round_nd t 1"
  have g: "geo_baseline rt lat c = fl rt r"
    by (simp add: geo_baseline_def r_def t_def m_def s_def)
  have fc: "fl rt c = c" "fl rt (5 + c) = 5 + c" using c f10 f15 f20 by auto
  have c0: "0 \<le> c" using c by auto
  have "0 \<le> s * c" "s * c \<le> c" using s c0 by (simp_all add: mult_left_le_one_le)
  then have m: "0 \<le> m" "m \<le> c" using mono[of 0 "s * c"] mono[of "s * c" c] f0 fc by (simp_all add: m_def)
  then have t: "5 \<le> t" "t \<le> 5 + c"
    using mono[of 5 "5 + m"] mono[of "5 + m" "5 + c"] f5 fc by (simp_all add: t_def)
  have r: "5 \<le> r \<and> r \<le> 5 + c"
  proof (cases "c = 10")
    case True
    have "of_int 50 \<le> t * 10" "t * 10 \<le> of_int 150" using t True by simp_all
    from py_round_nd1_bounds[OF this] show ?thesis using True by (simp add: r_def)
  next
    case False
    then have c15: "c = 15" using c by simp
    have "of_int 50 \<le> t * 10" "t * 10 \<le> of_int 200" using t c15 by simp_all
    from py_round_nd1_bounds[OF this] show ?thesis using c15 by (simp add: r_def)
  qed
  then show ?thesis using mono[of 5 r] mono[of r "5 + c"] f5 fc g by simp
qed


lemma binary64_0_6: "binary64 0.6 = 5404319552844595 / 2 ^ 53"
  using binary64_binade[of "- 1" "0.6"]
  by (simp add: powr_neg_numeral py_round_def Let_def)

lemma binary64_product_10_25:
  "binary64 (10.25 * (5404319552844595 / 2 ^ 53)) = 6924284427082137 / 2 ^ 50"
  using binary64_binade[of 2 "10.25 * (5404319552844595 / 2 ^ 53)"]
  by (simp add: powr_neg_numeral py_round_def Let_def)

lemma binary64_6_1: "binary64 6.1 = 6867989431740006 / 2 ^ 50"
  using binary64_binade[of 2 "6.1"]
  by (simp add: powr_neg_numeral py_round_def Let_def)

lemma pm25_fallback_numeric:
  "polls (pm25_fallback rt lat (reading0\<lparr>polls := (polls reading0)(PM10 := PNum x)\<rparr>)) PM25
     = PNum (fl rt (py_round_nd (fl rt (x * fl rt 0.6)) 1))"
  by (simp add: pm25_fallback_def reading0_def)

lemma double_round_10_25:
  "fl double_runtime (py_round_nd (fl double_runtime (10.25 * fl double_runtime 0.6)) 1) = binary64 6.1"
proof -
  have f: "fl double_runtime = binary64" by (simp add: double_runtime_def)
  have r: "py_round_nd (6924284427082137 / 2 ^ 50) 1 = 6.1"
    by (simp add: py_round_nd_def py_round_def Let_def)
  have "fl double_runtime (py_round_nd (fl double_runtime (10.25 * fl double_runtime 0.6)) 1)
          = binary64 (py_round_nd (binary64 (10.25 * binary64 0.6)) 1)"
    by (simp only: f)
  also have "\<dots> = binary64 (py_round_nd (binary64 (10.25 * (5404319552844595 / 2 ^ 53))) 1)"
    by (simp only: binary64_0_6)
  also have "\<dots> = binary64 (py_round_nd (6924284427082137 / 2 ^ 50) 1)"
    by (simp only: binary64_product_10_25)
  also have "\<dots> = binary64 6.1"
    by (simp only: r)
  finally show ?thesis .
qed

lemma pm25_fallback_double_10_25:
  "polls (pm25_fallback double_runtime lat (reading0\<lparr>polls := (polls reading0)(PM10 := PNum 10.25)\<rparr>)) PM25
     = PNum (binary64 6.1)"
  using pm25_fallback_numeric[of double_runtime lat "10.25"] by (simp only: double_round_10_25)

text \<open>
  C5. As stated, an unresolved PM2.5 becomes \<open>0.6 * pm10\<close> when PM10 is available. The
  code stores the product rounded to one decimal place: for \<open>pm10 = 10.25\<close>, in double
  arithmetic, the slot holds the double 6.1, which is neither the product 6.15 nor the
  double that the multiplication yields.
\<close>

theorem pm25_fallback_rounds_counterexample:
  "polls (pm25_fallback double_runtime 0 (reading0\<lparr>polls := (polls reading0)(PM10 := PNum 10.25)\<rparr>)) PM25
     \<noteq> PNum (0.6 * 10.25)
   \<and> polls (pm25_fallback double_runtime 0 (reading0\<lparr>polls := (polls reading0)(PM10 := PNum 10.25)\<rparr>)) PM25
     \<noteq> PNum (binary64 (10.25 * binary64 0.6))"
proof -
  have p: "binary64 (10.25 * binary64 0.6) = 6924284427082137 / 2 ^ 50"
    by (simp only: binary64_0_6 binary64_product_10_25)
  have "(6867989431740006 / 2 ^ 50 :: real) \<noteq> 0.6 * 10.25"
    and "(6867989431740006 / 2 ^ 50 :: real) \<noteq> 6924284427082137 / 2 ^ 50"
    by simp_all
  then show ?thesis
    by (simp only: pm25_fallback_double_10_25 binary64_6_1 p pyval.inject not_False_eq_True simp_thms)
qed

text \<open>
  C5, amended. When PM2.5 is unresolved after the ingestion, it becomes
  \<open>round(float(pm10) * 0.6, 1)\<close>, the double product rounded to one decimal place, when PM10
  holds a value that \<open>float()\<close> converts; \<open>round(5 + abs(math.sin(lat/12.0)) * 15, 1)\<close>
  when PM10 holds a value that does not convert; \<open>round(5 + abs(math.sin(lat/12.0)) * 10, 1)\<close>
  when PM10 is unresolved too, each computed in float arithmetic. The baselines depend on
  the latitude alone and, in an arithmetic that rounds as IEEE-754 does, lie in
  \<open>[5, 15]\<close> and \<open>[5, 20]\<close>. The live flag of PM2.5 is false in every case.
\<close>

theorem pm25_fallback_derivation:
  assumes "polls rd PM25 = PNone"
  shows "(py_float rt (polls rd PM10) = Inr x \<longrightarrow>
            polls (pm25_fallback rt lat rd) PM25
              = PNum (fl rt (py_round_nd (fl rt (x * fl rt 0.6)) 1)))
    \<and> (polls rd PM10 \<noteq> PNone \<and> py_float rt (polls rd PM10) = Inl e \<longrightarrow>
            polls (pm25_fallback rt lat rd) PM25 = PNum (geo_baseline rt lat 15))
    \<and> (polls rd PM10 = PNone \<longrightarrow>
            polls (pm25_fallback rt lat rd) PM25 = PNum (geo_baseline rt lat 10))
    \<and> (binary64_like rt \<longrightarrow>
            5 \<le> geo_baseline rt lat 10 \<and> geo_baseline rt lat 10 \<le> 15
            \<and> 5 \<le> geo_baseline rt lat 15 \<and> geo_baseline rt lat 15 \<le> 20)
    \<and> \<not> live_flags (pm25_fallback rt lat rd) PM25"
proof -
  have b: "binary64_like rt \<longrightarrow>
            5 \<le> geo_baseline rt lat 10 \<and> geo_baseline rt lat 10 \<le> 15
            \<and> 5 \<le> geo_baseline rt lat 15 \<and> geo_baseline rt lat 15 \<le> 20"
    using geo_baseline_bounds[of rt 10 lat] geo_baseline_bounds[of rt 15 lat] by simp
  have c1: "py_float rt (polls rd PM10) = Inr x \<longrightarrow>
            polls (pm25_fallback rt lat rd) PM25
              = PNum (fl rt (py_round_nd (fl rt (x * fl rt 0.6)) 1))"
    using assms by (cases "polls rd PM10") (auto simp: pm25_fallback_def split: option.splits)
  have c2: "polls rd PM10 \<noteq> PNone \<and> py_float rt (polls rd PM10) = Inl e \<longrightarrow>
            polls (pm25_fallback rt lat rd) PM25 = PNum (geo_baseline rt lat 15)"
    using assms by (simp add: pm25_fallback_def)
  have c3: "polls rd PM10 = PNone \<longrightarrow>
            polls (pm25_fallback rt lat rd) PM25 = PNum (geo_baseline rt lat 10)"
    using assms by (simp add: pm25_fallback_def)
  have c4: "\<not> live_flags (pm25_fallback rt lat rd) PM25"
    using assms by (simp add: pm25_fallback_def split: sum.splits)
  from b c1 c2 c3 c4 show ?thesis by blast
qed

theorem pm25_fallback_derivation_witness:
  "polls (reading0\<lparr>polls := (polls reading0)(PM10 := PNum 10.25)\<rparr>) PM25 = PNone
   \<and> py_float double_runtime (polls (reading0\<lparr>polls := (polls reading0)(PM10 := PNum 10.25)\<rparr>) PM10) = Inr 10.25
   \<and> polls (pm25_fallback double_runtime 25.358 (reading0\<lparr>polls := (polls reading0)(PM10 := PNum 10.25)\<rparr>)) PM25
       = PNum (6867989431740006 / 2 ^ 50)
   \<and> binary64_like double_runtime
   \<and> 5 \<le> geo_baseline double_runtime 25.358 10 \<and> geo_baseline double_runtime 25.358 10 \<le> 15
   \<and> 5 \<le> geo_baseline double_runtime 25.358 15 \<and> geo_baseline double_runtime 25.358 15 \<le> 20
   \<and> polls reading0 PM25 = PNone \<and> polls reading0 PM10 = PNone
   \<and> polls (pm25_fallback ascii_runtime (6 * pi) reading0) PM25 = PNum 15
   \<and> polls (reading0\<lparr>polls := (polls reading0)(PM10 := PStr (u ''n/a''))\<rparr>) PM10 \<noteq> PNone
   \<and> py_float ascii_runtime (polls (reading0\<lparr>polls := (polls reading0)(PM10 := PStr (u ''n/a''))\<rparr>) PM10) = Inl ValueError
   \<and> polls (pm25_fallback ascii_runtime (6 * pi) (reading0\<lparr>polls := (polls reading0)(PM10 := PStr (u ''n/a''))\<rparr>)) PM25 = PNum 20"
proof -
  have g10: "geo_baseline ascii_runtime (6 * pi) 10 = 15"
    by (simp add: geo_baseline_def ascii_runtime_def py_round_nd_def py_round_def Let_def)
  have g15: "geo_baseline ascii_runtime (6 * pi) 15 = 20"
    by (simp add: geo_baseline_def ascii_runtime_def py_round_nd_def py_round_def Let_def)
  have w1: "polls (pm25_fallback double_runtime 25.358 (reading0\<lparr>polls := (polls reading0)(PM10 := PNum 10.25)\<rparr>)) PM25
       = PNum (fl double_runtime (py_round_nd (fl double_runtime (10.25 * fl double_runtime 0.6)) 1))"
    and w2: "5 \<le> geo_baseline double_runtime 25.358 10 \<and> geo_baseline double_runtime 25.358 10 \<le> 15
       \<and> 5 \<le> geo_baseline double_runtime 25.358 15 \<and> geo_baseline double_runtime 25.358 15 \<le> 20"
    using pm25_fallback_derivation[of "reading0\<lparr>polls := (polls reading0)(PM10 := PNum 10.25)\<rparr>"
        double_runtime "10.25" "25.358" ValueError] binary64_like_double
    by (simp_all add: reading0_def)
  have w1': "polls (pm25_fallback double_runtime 25.358 (reading0\<lparr>polls := (polls reading0)(PM10 := PNum 10.25)\<rparr>)) PM25
       = PNum (6867989431740006 / 2 ^ 50)"
    using w1 by (simp only: double_round_10_25 binary64_6_1)
  have w3: "polls (pm25_fallback ascii_runtime (6 * pi) reading0) PM25 = PNum 15"
    using pm25_fallback_derivation[of reading0 ascii_runtime 0 "6 * pi" ValueError] g10
    by (simp add: reading0_def)
  have w4: "polls (pm25_fallback ascii_runtime (6 * pi) (reading0\<lparr>polls := (polls reading0)(PM10 := PStr (u ''n/a''))\<rparr>)) PM25 = PNum 20"
    using pm25_fallback_derivation[of "reading0\<lparr>polls := (polls reading0)(PM10 := PStr (u ''n/a''))\<rparr>"
        ascii_runtime 0 "6 * pi" ValueError] g15
    by (simp add: reading0_def ascii_runtime_def)
  show ?thesis
    using w1' w2 w3 w4 binary64_like_double
    by (simp add: reading0_def) (simp add: ascii_runtime_def)
qed

section \<open>Properties of the satellite proxy\<close>

lemma np_clip_clamp: "lo \<le> hi \<Longrightarrow> np_clip x lo hi = clamp x lo hi"
  by (auto simp: np_clip_def clamp_def)

lemma np_clip_range: "lo \<le> hi \<Longrightarrow> lo \<le> np_clip x lo hi \<and> np_clip x lo hi \<le> hi"
  by (auto simp: np_clip_def)

lemma fetch_satellite_proxy_none:
  "fst (fetch_satellite_proxy rt ee tq mq) = None \<Longrightarrow> snd (fetch_satellite_proxy rt ee tq mq) = DEMO_FALLBACK"
  by (auto simp: fetch_satellite_proxy_def split: if_splits option.splits)

lemma fetch_satellite_proxy_range:
  "fst (fetch_satellite_proxy rt ee tq mq) = Some a \<Longrightarrow> 0.03 \<le> a \<and> a \<le> 1.0"
  using np_clip_range[of "0.03" "1.0"]
  by (auto simp: fetch_satellite_proxy_def tempo_to_aod_proxy_from_no2_def
      split: if_splits option.splits)

text \<open>
  C6. The proxy of a trace-gas column value \<open>v\<close> is \<open>clamp(v / 1e16, 0.03, 1.0)\<close>, which is 1.0
  for \<open>v = 2e16\<close>; when the satellite helper delivers no value the script takes
  \<open>clamp(pm25 / 150, 0.03, 1.0)\<close> and the label of the PM2.5-derived proxy; every proxy
  value the script ends with lies in \<open>[0.03, 1.0]\<close>.
\<close>

theorem satellite_proxy_clamped:
  "(py_float rt c = Inr v \<longrightarrow> tempo_to_aod_proxy_from_no2 rt c = Some (clamp (v / 10 ^ 16) 0.03 1.0))
   \<and> tempo_to_aod_proxy_from_no2 rt (PNum (2 * 10 ^ 16)) = Some 1.0
   \<and> (fst (fetch_satellite_proxy rt ee tq mq) = None \<and> py_float rt (polls rd PM25) = Inr p \<longrightarrow>
        satellite_stage rt ee tq mq rd = Inr (clamp (p / 150) 0.03 1.0, PM25_proxy))
   \<and> (satellite_stage rt ee tq mq rd = Inr (a, l) \<longrightarrow> 0.03 \<le> a \<and> a \<le> 1.0)"
proof (intro conjI impI)
  assume "py_float rt c = Inr v"
  then show "tempo_to_aod_proxy_from_no2 rt c = Some (clamp (v / 10 ^ 16) 0.03 1.0)"
    by (simp add: tempo_to_aod_proxy_from_no2_def np_clip_clamp)
next
  show "tempo_to_aod_proxy_from_no2 rt (PNum (2 * 10 ^ 16)) = Some 1.0"
    by (simp add: tempo_to_aod_proxy_from_no2_def np_clip_def)
next
  assume h: "fst (fetch_satellite_proxy rt ee tq mq) = None \<and> py_float rt (polls rd PM25) = Inr p"
  then have "fetch_satellite_proxy rt ee tq mq = (None, DEMO_FALLBACK)"
    using fetch_satellite_proxy_none[of rt ee tq mq] by (cases "fetch_satellite_proxy rt ee tq mq") simp
  then show "satellite_stage rt ee tq mq rd = Inr (clamp (p / 150) 0.03 1.0, PM25_proxy)"
    using h by (simp add: satellite_stage_def np_clip_clamp)
next
  assume h: "satellite_stage rt ee tq mq rd = Inr (a, l)"
  show "0.03 \<le> a"
    using h fetch_satellite_proxy_range[of rt ee tq mq] np_clip_range[of "0.03" "1.0"]
    by (cases "fetch_satellite_proxy rt ee tq mq")
      (auto simp: satellite_stage_def split: option.splits sum.splits)
  show "a \<le> 1.0"
    using h fetch_satellite_proxy_range[of rt ee tq mq] np_clip_range[of "0.03" "1.0"]
    by (cases "fetch_satellite_proxy rt ee tq mq")
      (auto simp: satellite_stage_def split: option.splits sum.splits)
qed

theorem satellite_proxy_clamped_witness:
  "py_float ascii_runtime (PNum (5 * 10 ^ 15)) = Inr (5 * 10 ^ 15)
   \<and> tempo_to_aod_proxy_from_no2 ascii_runtime (PNum (5 * 10 ^ 15)) = Some 0.5
   \<and> fst (fetch_satellite_proxy ascii_runtime False (Inl ValueError) (Inl ValueError)) = None
   \<and> py_float ascii_runtime (polls (reading0\<lparr>polls := (polls reading0)(PM25 := PNum 75)\<rparr>) PM25) = Inr 75
   \<and> satellite_stage ascii_runtime False (Inl ValueError) (Inl ValueError)
        (reading0\<lparr>polls := (polls reading0)(PM25 := PNum 75)\<rparr>) = Inr (0.5, PM25_proxy)
   \<and> (0.03::real) \<le> 0.5 \<and> (0.5::real) \<le> 1.0"
  using satellite_proxy_clamped[of ascii_runtime "PNum (5 * 10 ^ 15)" "5 * 10 ^ 15" False
      "Inl ValueError" "Inl ValueError" "reading0\<lparr>polls := (polls reading0)(PM25 := PNum 75)\<rparr>" 75
      "0.5" PM25_proxy]
  by (simp add: clamp_def fetch_satellite_proxy_def reading0_def)

section \<open>Properties of the forecast\<close>

lemma length_random_walk: "length (random_walk normal scale n last0 r) = n"
  by (induction n arbitrary: last0 r) (simp_all add: Let_def split: prod.splits)

lemma py_round_nd1_floor: "0.1 \<le> x \<Longrightarrow> 0.1 \<le> py_round_nd x 1"
proof -
  assume "0.1 \<le> x"
  then have "of_int 1 \<le> x * 10" by simp
  then have "1 \<le> py_round (x * 10)" by (rule py_round_lower)
  then have "(1::real) \<le> of_int (py_round (x * 10))" by linarith
  then show ?thesis by (simp add: py_round_nd_def)
qed

lemma random_walk_floor: "list_all (\<lambda>v. 0.1 \<le> v) (random_walk normal scale n last0 r)"
proof (induction n arbitrary: last0 r)
  case 0
  then show ?case by simp
next
  case (Suc n)
  obtain z r' where d: "normal r 0 scale = (z, r')" by (cases "normal r 0 scale") auto
  have "0.1 \<le> py_round_nd (max 0.1 (last0 + z)) 1" by (rule py_round_nd1_floor) simp
  then show ?case using Suc.IH[of "max 0.1 (last0 + z)" r'] by (simp add: d Let_def)
qed

text \<open>
  C7. With fewer than six historical samples the series comes from the random walk: for a
  given current PM2.5 value (and slider value) there is one series of 24 values, none below
  0.1, that every invocation returns, whatever the state of the global generator, which the
  branch leaves as it found it. For any hour count and variance \<open>hourly_forecast_pm\<close>
  returns a series of that many values, a function of its arguments and of the generator
  seeded from the current value.
\<close>

theorem forecast_deterministic:
  "(show_24h \<and> length pm_history < 6 \<and> py_float rt pm25 = Inr x \<longrightarrow>
     (\<exists>s. length s = 24 \<and> list_all (\<lambda>v. 0.1 \<le> v) s \<and>
        hourly_forecast_pm rt default_rng normal pm25 24 (of_int forecast_var / 100) = Inr s \<and>
        (\<forall>g. pm24_series rt default_rng normal np_random_normal show_24h pm_history pm25 forecast_var g
               = Inr (s, g))))
   \<and> (py_float rt pm25 = Inr x \<longrightarrow>
        (\<exists>s. length s = nat hours \<and> list_all (\<lambda>v. 0.1 \<le> v) s \<and>
           hourly_forecast_pm rt default_rng normal pm25 hours variance = Inr s))"
proof (intro conjI impI)
  assume h: "show_24h \<and> length pm_history < 6 \<and> py_float rt pm25 = Inr x"
  let ?s = "random_walk normal (max 0.2 (x * (of_int forecast_var / 100))) 24 x
              (default_rng (forecast_seed x))"
  have hf: "hourly_forecast_pm rt default_rng normal pm25 24 (of_int forecast_var / 100) = Inr ?s"
    using h by (simp add: hourly_forecast_pm_def)
  have pg: "\<forall>g. pm24_series rt default_rng normal np_random_normal show_24h pm_history pm25 forecast_var g
               = Inr (?s, g)"
    using h hf by (simp add: pm24_series_def)
  have len: "length ?s = 24" by (rule length_random_walk)
  have fl: "list_all (\<lambda>v. 0.1 \<le> v) ?s" by (rule random_walk_floor)
  show "\<exists>s. length s = 24 \<and> list_all (\<lambda>v. 0.1 \<le> v) s \<and>
        hourly_forecast_pm rt default_rng normal pm25 24 (of_int forecast_var / 100) = Inr s \<and>
        (\<forall>g. pm24_series rt default_rng normal np_random_normal show_24h pm_history pm25 forecast_var g
               = Inr (s, g))"
    using hf pg len fl by (intro exI[of _ ?s] conjI)
next
  assume h: "py_float rt pm25 = Inr x"
  let ?s = "random_walk normal (max 0.2 (x * variance)) (nat hours) x (default_rng (forecast_seed x))"
  have hf: "hourly_forecast_pm rt default_rng normal pm25 hours variance = Inr ?s"
    using h by (simp add: hourly_forecast_pm_def)
  have len: "length ?s = nat hours" by (rule length_random_walk)
  have fl: "list_all (\<lambda>v. 0.1 \<le> v) ?s" by (rule random_walk_floor)
  show "\<exists>s. length s = nat hours \<and> list_all (\<lambda>v. 0.1 \<le> v) s \<and>
           hourly_forecast_pm rt default_rng normal pm25 hours variance = Inr s"
    using hf len fl by (intro exI[of _ ?s] conjI)
qed

theorem forecast_deterministic_witness:
  "True \<and> length ([3, 4] :: real list) < 6 \<and> py_float ascii_runtime (PNum 10) = Inr 10
   \<and> (\<exists>s. length s = 24 \<and> list_all (\<lambda>v. 0.1 \<le> v) s \<and>
        (\<forall>g :: nat. pm24_series ascii_runtime (\<lambda>seed. seed) (\<lambda>r loc scale. (scale, Suc r))
               (\<lambda>g loc scale. Inr (0, Suc g)) True [3, 4] (PNum 10) 3 g = Inr (s, g)))"
  using forecast_deterministic[of True "[3, 4]" ascii_runtime "PNum 10" 10 "\<lambda>seed. seed"
      "\<lambda>r loc scale. (scale, Suc r)" 3 "\<lambda>g loc scale. Inr (0, Suc g)" 24 "0.03"]
  by simp blast

section \<open>Properties of the ground-station resolver\<close>

lemma sweep_miss:
  "(\<forall>i<length rs. miss block (service (qlog @ map (Pair ep) (take i rs)) ep (rs ! i)))
   \<Longrightarrow> sweep block ep service qlog rs = (None, qlog @ map (Pair ep) rs)"
proof (induction rs arbitrary: qlog)
  case Nil
  then show ?case by simp
next
  case (Cons r rs)
  from Cons.prems have m0: "miss block (service qlog ep r)" by fastforce
  have rest: "\<forall>i<length rs. miss block (service ((qlog @ [(ep, r)]) @ map (Pair ep) (take i rs)) ep (rs ! i))"
  proof (intro allI impI)
    fix i assume "i < length rs"
    then have "Suc i < length (r # rs)" by simp
    with Cons.prems have "miss block (service (qlog @ map (Pair ep) (take (Suc i) (r # rs))) ep ((r # rs) ! Suc i))"
      by blast
    then show "miss block (service ((qlog @ [(ep, r)]) @ map (Pair ep) (take i rs)) ep (rs ! i))"
      by simp
  qed
  have "sweep block ep service qlog (r # rs) = sweep block ep service (qlog @ [(ep, r)]) rs"
    using m0 by (auto simp: miss_def split: sum.splits option.splits)
  then show ?case using Cons.IH[OF rest] by simp
qed

lemma sweep_hit:
  "(\<forall>i<length pre. miss block (service (qlog @ map (Pair ep) (take i pre)) ep (pre ! i)))
   \<Longrightarrow> block (service (qlog @ map (Pair ep) pre) ep r) = Inr (Some x)
   \<Longrightarrow> sweep block ep service qlog (pre @ r # post) = (Some (x, r), qlog @ map (Pair ep) (pre @ [r]))"
proof (induction pre arbitrary: qlog)
  case Nil
  then show ?case by simp
next
  case (Cons q pre)
  from Cons.prems(1) have m0: "miss block (service qlog ep q)" by fastforce
  have rest: "\<forall>i<length pre. miss block (service ((qlog @ [(ep, q)]) @ map (Pair ep) (take i pre)) ep (pre ! i))"
  proof (intro allI impI)
    fix i assume "i < length pre"
    then have "Suc i < length (q # pre)" by simp
    with Cons.prems(1) have "miss block (service (qlog @ map (Pair ep) (take (Suc i) (q # pre))) ep ((q # pre) ! Suc i))"
      by blast
    then show "miss block (service ((qlog @ [(ep, q)]) @ map (Pair ep) (take i pre)) ep (pre ! i))"
      by simp
  qed
  have hit: "block (service ((qlog @ [(ep, q)]) @ map (Pair ep) pre) ep r) = Inr (Some x)"
    using Cons.prems(2) by simp
  have "sweep block ep service qlog ((q # pre) @ r # post)
          = sweep block ep service (qlog @ [(ep, q)]) (pre @ r # post)"
    using m0 by (auto simp: miss_def split: sum.splits option.splits)
  then show ?case using Cons.IH[OF rest hit] by simp
qed

lemma collect_dicts:
  "list_all is_dict ms \<Longrightarrow> \<exists>parsed. collect parse_measurement ms = Inr parsed \<and> length parsed = length ms"
proof (induction ms)
  case Nil
  then show ?case by simp
next
  case (Cons m ms)
  then obtain kvs where m: "m = PDict kvs" by (cases m) auto
  have "\<exists>y. parse_measurement m = Inr y"
    by (auto simp: m parse_measurement_def pick_timestamp_def Let_def split: pyval.splits option.splits)
  then obtain y where y: "parse_measurement m = Inr y" by blast
  from Cons obtain parsed where p: "collect parse_measurement ms = Inr parsed" "length parsed = length ms"
    by auto
  show ?case using y p by simp
qed

lemma latest_scan_skip:
  "list_all no_measurements skipped \<Longrightarrow> latest_scan (skipped @ rest) = latest_scan rest"
proof (induction skipped)
  case Nil
  then show ?case by simp
next
  case (Cons s skipped)
  then show ?case
    by (cases s) (auto simp: no_measurements_def split: option.splits)
qed

lemma latest_try_hit:
  assumes "map_of j (u ''results'') = Some (PList (skipped @ PDict rk # rest))"
    and "list_all no_measurements skipped"
    and "map_of rk (u ''measurements'') = Some (PList (m # ms))"
    and "list_all is_dict (m # ms)"
  shows "\<exists>parsed. latest_try (Body (PDict j)) = Inr (Some (PDict rk, parsed))
           \<and> collect parse_measurement (m # ms) = Inr parsed \<and> length parsed = Suc (length ms)"
proof -
  from collect_dicts[OF assms(4)] obtain parsed
    where p: "collect parse_measurement (m # ms) = Inr parsed" "length parsed = length (m # ms)"
    by blast
  have "latest_scan (skipped @ PDict rk # rest) = Inr (Some (PDict rk, parsed))"
    using p(1) assms(3) by (simp add: latest_scan_skip[OF assms(2)])
  then have "latest_try (Body (PDict j)) = Inr (Some (PDict rk, parsed))"
    using assms(1) by (simp add: latest_try_def)
  then show ?thesis using p by simp
qed

lemma miss_failures:
  "miss latest_try NoResponse" "miss latest_try BadBody"
  "miss (pseudo_try rt) NoResponse" "miss (pseudo_try rt) BadBody"
  "\<not> is_dict j \<Longrightarrow> miss latest_try (Body j)"
  "\<not> is_dict j \<Longrightarrow> miss (pseudo_try rt) (Body j)"
  "map_of kvs (u ''results'') = None \<Longrightarrow> miss latest_try (Body (PDict kvs))"
  "map_of kvs (u ''results'') = None \<Longrightarrow> miss (pseudo_try rt) (Body (PDict kvs))"
  "map_of kvs (u ''results'') = Some (PList []) \<Longrightarrow> miss latest_try (Body (PDict kvs))"
  "map_of kvs (u ''results'') = Some (PList []) \<Longrightarrow> miss (pseudo_try rt) (Body (PDict kvs))"
  by (cases j; simp add: miss_def latest_try_def pseudo_try_def)+


lemma miss_raise: "block resp = Inl e \<Longrightarrow> miss block resp"
  by (simp add: miss_def)

text \<open>
  C4. The resolver asks the latest-readings endpoint for the radii in order. When every
  radius before \<open>r\<close> is a miss (no data, or a failure of any kind) and the answer at \<open>r\<close>
  holds a result with a non-empty list of measurement objects (the results before it
  having none), it returns that result, \<open>r\<close>, the normalized measurements and the mode
  "latest"; the requests made are the latest-readings requests up to \<open>r\<close>, so none went to
  the historical endpoint. A missing response, an undecodable body and a raised exception
  are misses. When every radius is a miss in both sweeps, it returns the empty result after
  asking both endpoints for every radius.
\<close>

theorem fetch_openaq_adaptive_sweeps:
  "(radii = pre @ r # post
      \<and> (\<forall>i<length pre. miss latest_try (service (map (Pair Latest_EP) (take i pre)) Latest_EP (pre ! i)))
      \<and> service (map (Pair Latest_EP) pre) Latest_EP r = Body (PDict j)
      \<and> map_of j (u ''results'') = Some (PList (skipped @ PDict rk # rest))
      \<and> list_all no_measurements skipped
      \<and> map_of rk (u ''measurements'') = Some (PList (m # ms))
      \<and> list_all is_dict (m # ms)
    \<longrightarrow> (\<exists>parsed. collect parse_measurement (m # ms) = Inr parsed
           \<and> length parsed = Suc (length ms)
           \<and> fetch_openaq_adaptive rt service radii
               = ((Some (PDict rk), Some r, parsed, Some Latest), map (Pair Latest_EP) (pre @ [r]))))
   \<and> (miss latest_try NoResponse \<and> miss latest_try BadBody
        \<and> miss (pseudo_try rt) NoResponse \<and> miss (pseudo_try rt) BadBody
        \<and> (latest_try resp = Inl e \<longrightarrow> miss latest_try resp)
        \<and> (pseudo_try rt resp = Inl e \<longrightarrow> miss (pseudo_try rt) resp))
   \<and> ((\<forall>i<length radii. miss latest_try (service (map (Pair Latest_EP) (take i radii)) Latest_EP (radii ! i)))
        \<and> (\<forall>i<length radii. miss (pseudo_try rt)
              (service (map (Pair Latest_EP) radii @ map (Pair Measurements_EP) (take i radii))
                 Measurements_EP (radii ! i)))
      \<longrightarrow> fetch_openaq_adaptive rt service radii
            = ((None, None, [], None), map (Pair Latest_EP) radii @ map (Pair Measurements_EP) radii))"
proof (intro conjI impI)
  assume h: "radii = pre @ r # post
      \<and> (\<forall>i<length pre. miss latest_try (service (map (Pair Latest_EP) (take i pre)) Latest_EP (pre ! i)))
      \<and> service (map (Pair Latest_EP) pre) Latest_EP r = Body (PDict j)
      \<and> map_of j (u ''results'') = Some (PList (skipped @ PDict rk # rest))
      \<and> list_all no_measurements skipped
      \<and> map_of rk (u ''measurements'') = Some (PList (m # ms))
      \<and> list_all is_dict (m # ms)"
  then obtain parsed where p: "latest_try (Body (PDict j)) = Inr (Some (PDict rk, parsed))"
    "collect parse_measurement (m # ms) = Inr parsed" "length parsed = Suc (length ms)"
    using latest_try_hit[of j skipped rk rest m ms] by blast
  have pre: "\<forall>i<length pre. miss latest_try (service ([] @ map (Pair Latest_EP) (take i pre)) Latest_EP (pre ! i))"
    using h by simp
  have hit: "latest_try (service ([] @ map (Pair Latest_EP) pre) Latest_EP r) = Inr (Some (PDict rk, parsed))"
    using h p(1) by simp
  have "sweep latest_try Latest_EP service [] (pre @ r # post)
          = (Some ((PDict rk, parsed), r), [] @ map (Pair Latest_EP) (pre @ [r]))"
    using sweep_hit[where block = latest_try and service = service and qlog = "[]"
        and ep = Latest_EP and pre = pre and r = r and x = "(PDict rk, parsed)" and post = post]
      pre hit by blast
  then have "fetch_openaq_adaptive rt service radii
               = ((Some (PDict rk), Some r, parsed, Some Latest), map (Pair Latest_EP) (pre @ [r]))"
    using h by (simp add: fetch_openaq_adaptive_def)
  then show "\<exists>parsed. collect parse_measurement (m # ms) = Inr parsed
           \<and> length parsed = Suc (length ms)
           \<and> fetch_openaq_adaptive rt service radii
               = ((Some (PDict rk), Some r, parsed, Some Latest), map (Pair Latest_EP) (pre @ [r]))"
    using p by blast
next
  assume h: "(\<forall>i<length radii. miss latest_try (service (map (Pair Latest_EP) (take i radii)) Latest_EP (radii ! i)))
        \<and> (\<forall>i<length radii. miss (pseudo_try rt)
              (service (map (Pair Latest_EP) radii @ map (Pair Measurements_EP) (take i radii))
                 Measurements_EP (radii ! i)))"
  have l: "\<forall>i<length radii. miss latest_try (service ([] @ map (Pair Latest_EP) (take i radii)) Latest_EP (radii ! i))"
    using h by simp
  have s1: "sweep latest_try Latest_EP service [] radii = (None, [] @ map (Pair Latest_EP) radii)"
    using sweep_miss[where block = latest_try and service = service and qlog = "[]"
        and ep = Latest_EP and rs = radii] l by blast
  have s2: "sweep (pseudo_try rt) Measurements_EP service (map (Pair Latest_EP) radii) radii
              = (None, map (Pair Latest_EP) radii @ map (Pair Measurements_EP) radii)"
    using sweep_miss[where block = "pseudo_try rt" and service = service
        and qlog = "map (Pair Latest_EP) radii" and ep = Measurements_EP and rs = radii] h by blast
  show "fetch_openaq_adaptive rt service radii
            = ((None, None, [], None), map (Pair Latest_EP) radii @ map (Pair Measurements_EP) radii)"
    using s1 s2 by (simp add: fetch_openaq_adaptive_def)
qed (simp_all add: miss_failures miss_raise)

theorem fetch_openaq_adaptive_sweeps_witness:
  "fetch_openaq_adaptive ascii_runtime demo_service [5000, 20000, 50000]
     = ((Some (PDict [(u ''measurements'', PList [demo_measurement])]), Some 20000,
         [\<lparr>parameter = PStr (u ''pm25''), val = PNum 12,
           lastUpdated = PStr (u ''2024-01-01T00:00:00Z'')\<rparr>], Some Latest),
        [(Latest_EP, 5000), (Latest_EP, 20000)])
   \<and> fetch_openaq_adaptive ascii_runtime (\<lambda>qlog ep r. NoResponse) [5000, 20000]
     = ((None, None, [], None),
        [(Latest_EP, 5000), (Latest_EP, 20000), (Measurements_EP, 5000), (Measurements_EP, 20000)])"
proof -
  have a: "\<forall>i<length [5000::nat]. miss latest_try
             (demo_service (map (Pair Latest_EP) (take i [5000])) Latest_EP ([5000] ! i))"
    by (simp add: demo_service_def miss_failures)
  have b: "demo_service (map (Pair Latest_EP) [5000]) Latest_EP 20000
             = Body (PDict [(u ''results'',
                   PList ([PDict [(u ''location'', PStr (u ''A''))]] @
                          PDict [(u ''measurements'', PList [demo_measurement])] # []))])"
    by (simp add: demo_service_def)
  have c: "list_all no_measurements [PDict [(u ''location'', PStr (u ''A''))]]"
    by (simp add: no_measurements_def u_def)
  have d: "list_all is_dict (demo_measurement # [])"
    by (simp add: demo_measurement_def)
  have e: "collect parse_measurement [demo_measurement]
             = Inr [\<lparr>parameter = PStr (u ''pm25''), val = PNum 12,
                     lastUpdated = PStr (u ''2024-01-01T00:00:00Z'')\<rparr>]"
    by (simp add: demo_measurement_def parse_measurement_def pick_timestamp_def u_def)
  have f: "\<forall>i<length [5000::nat, 20000]. miss latest_try
             ((\<lambda>qlog ep r. NoResponse) (map (Pair Latest_EP) (take i [5000, 20000])) Latest_EP ([5000, 20000] ! i))"
    by (simp add: miss_failures)
  have g: "\<forall>i<length [5000::nat, 20000]. miss (pseudo_try ascii_runtime)
             ((\<lambda>qlog ep r. NoResponse) (map (Pair Latest_EP) [5000, 20000] @ map (Pair Measurements_EP) (take i [5000, 20000]))
                Measurements_EP ([5000, 20000] ! i))"
    by (simp add: miss_failures)
  show ?thesis
    using fetch_openaq_adaptive_sweeps[of "[5000, 20000, 50000]" "[5000]" 20000 "[50000]" demo_service
        "[(u ''results'', PList ([PDict [(u ''location'', PStr (u ''A''))]] @
                          PDict [(u ''measurements'', PList [demo_measurement])] # []))]"
        "[PDict [(u ''location'', PStr (u ''A''))]]" "[(u ''measurements'', PList [demo_measurement])]" "[]"
        demo_measurement "[]" ascii_runtime NoResponse ValueError]
      fetch_openaq_adaptive_sweeps[of "[5000, 20000]" "[]" 0 "[]" "\<lambda>qlog ep r. NoResponse"
        "[]" "[]" "[]" "[]" PNone "[]" ascii_runtime NoResponse ValueError]
      a b c d e f g
    by simp
qed

end
